theory Spec2Isabelle
  imports Main
begin

section \<open>JavaScript values, as far as the tag input reads them\<close>

text \<open>
  A string is the sequence of its code points (what \<open>StringToCodePoints\<close> yields), so
  that the regular expressions of \<open>makeSlug\<close>, one of which has the \<open>u\<close> flag, and
  \<open>trim\<close> and \<open>toLowerCase\<close> all read the same sequence.
\<close>

type_synonym cp = nat
type_synonym jsstring = "cp list"

definition ascii :: "string \<Rightarrow> jsstring" where
  "ascii s = map of_char s"

text \<open>
  The values that reach the component through the \<open>value\<close> prop (typed \<open>unknown\<close>)
  and through the HTTP client (typed \<open>any\<close>): the JSON data model and \<open>undefined\<close>.
  Numbers are the integers. An object is the list of its own properties, each key once
  (\<open>get_prop\<close> reads the first entry of a key); the prototype
  chain of a JSON object is \<open>Object.prototype\<close>, of an array \<open>Array.prototype\<close>.
\<close>

datatype jsval =
    JUndefined
  | JNull
  | JBool bool
  | JNum int
  | JStr jsstring
  | JArr "jsval list"
  | JObj "(jsstring \<times> jsval) list"

datatype exn = TypeError | URIError | Rejected jsval

text \<open>\<open>interface TagData { documentId: string; name: string }\<close>. The types are erased
  at run time and values typed \<open>any\<close> are stored in both fields unconverted, so a field
  holds a \<open>jsval\<close>; \<open>typed\<close> says that a tag is what the interface declares.\<close>

record TagData =
  documentId :: jsval
  name :: jsval

definition is_string :: "jsval \<Rightarrow> bool" where
  "is_string v = (case v of JStr _ \<Rightarrow> True | _ \<Rightarrow> False)"

definition typed :: "TagData \<Rightarrow> bool" where
  "typed t = (is_string (documentId t) \<and> is_string (name t))"

text \<open>\<open>ToBoolean\<close>: what \<open>!v\<close>, \<open>a && b\<close> and \<open>a || b\<close> test.\<close>

fun truthy :: "jsval \<Rightarrow> bool" where
  "truthy JUndefined = False"
| "truthy JNull = False"
| "truthy (JBool b) = b"
| "truthy (JNum n) = (n \<noteq> 0)"
| "truthy (JStr s) = (s \<noteq> [])"
| "truthy (JArr _) = True"
| "truthy (JObj _) = True"

definition nullish :: "jsval \<Rightarrow> bool" where
  "nullish v = (v = JUndefined \<or> v = JNull)"

text \<open>\<open>typeof v === 'object'\<close> (true of \<open>null\<close> as well).\<close>

fun typeof_object :: "jsval \<Rightarrow> bool" where
  "typeof_object JNull = True"
| "typeof_object (JArr _) = True"
| "typeof_object (JObj _) = True"
| "typeof_object _ = False"

text \<open>\<open>Array.isArray\<close>.\<close>

fun isArray :: "jsval \<Rightarrow> bool" where
  "isArray (JArr _) = True"
| "isArray _ = False"

text \<open>
  \<open>v.k\<close> for the property names the component reads (\<open>name\<close>, \<open>documentId\<close>,
  \<open>data\<close>, \<open>results\<close>, \<open>tagContentType\<close>): a TypeError on \<open>undefined\<close> and \<open>null\<close>, the own
  property of an object, and \<open>undefined\<close> otherwise (no prototype has one of these
  names).
\<close>

fun get_prop :: "jsval \<Rightarrow> jsstring \<Rightarrow> exn + jsval" where
  "get_prop JUndefined k = Inl TypeError"
| "get_prop JNull k = Inl TypeError"
| "get_prop (JObj fs) k = Inr (case map_of fs k of None \<Rightarrow> JUndefined | Some v \<Rightarrow> v)"
| "get_prop _ k = Inr JUndefined"

text \<open>\<open>v?.k\<close>\<close>

definition opt_prop :: "jsval \<Rightarrow> jsstring \<Rightarrow> exn + jsval" where
  "opt_prop v k = (if nullish v then Inr JUndefined else get_prop v k)"

text \<open>The decimal digits of a natural number, and \<open>Number::toString\<close> of an integer
  (as JavaScript prints the integers below \<open>10^21\<close>).\<close>

fun digits :: "nat \<Rightarrow> jsstring" where
  "digits n = (if n < 10 then [48 + n] else digits (n div 10) @ [48 + n mod 10])"

declare digits.simps [simp del]

definition Number_toString :: "int \<Rightarrow> jsstring" where
  "Number_toString n = (if n < 0 then 45 # digits (nat (- n)) else digits (nat n))"

text \<open>
  \<open>String(v)\<close>, that is \<open>ToString\<close>. An array is joined with commas, \<open>undefined\<close>
  and \<open>null\<close> elements giving the empty string (\<open>Array.prototype.join\<close>). An object
  goes through \<open>OrdinaryToPrimitive\<close>: an own \<open>toString\<close> property, which in JSON
  data is never callable, hides \<open>Object.prototype.toString\<close>, \<open>valueOf\<close> gives no
  primitive, and the conversion throws a TypeError; without it the result is
  \<open>[object Object]\<close>.
\<close>

fun ToString :: "jsval \<Rightarrow> exn + jsstring"
  and join_elems :: "jsval list \<Rightarrow> exn + jsstring" where
  "ToString JUndefined = Inr (ascii ''undefined'')"
| "ToString JNull = Inr (ascii ''null'')"
| "ToString (JBool b) = Inr (if b then ascii ''true'' else ascii ''false'')"
| "ToString (JNum n) = Inr (Number_toString n)"
| "ToString (JStr s) = Inr s"
| "ToString (JArr xs) = join_elems xs"
| "ToString (JObj fs) =
     (if map_of fs (ascii ''toString'') \<noteq> None then Inl TypeError
      else Inr (ascii ''[object Object]''))"
| "join_elems [] = Inr []"
| "join_elems (x # xs) =
     (case (if x = JUndefined \<or> x = JNull then Inr [] else ToString x) of
        Inl e \<Rightarrow> Inl e
      | Inr s \<Rightarrow>
          (if xs = [] then Inr s
           else (case join_elems xs of Inl e \<Rightarrow> Inl e | Inr r \<Rightarrow> Inr (s @ 44 # r))))"

section \<open>The platform\<close>

text \<open>
  What the component takes from the JavaScript engine and that is too large to write
  out: \<open>JSON.parse\<close> (\<open>None\<close> when it throws a SyntaxError), \<open>toLowerCase\<close>, the
  Unicode properties \<open>\p{L}\<close> and \<open>\p{N}\<close>, and whether \<open>StringToNumber\<close> of a string is
  greater than zero.
\<close>

record platform =
  JSON_parse :: "jsstring \<Rightarrow> jsval option"
  toLowerCase :: "jsstring \<Rightarrow> jsstring"
  isLetter :: "cp \<Rightarrow> bool"
  isNumber :: "cp \<Rightarrow> bool"
  positiveNumeral :: "jsstring \<Rightarrow> bool"

text \<open>White space and line terminators: the class \<open>\s\<close> and what \<open>trim\<close> strips.\<close>

definition is_space :: "cp \<Rightarrow> bool" where
  "is_space c =
     ((9 \<le> c \<and> c \<le> 13) \<or> c = 32 \<or> c = 160 \<or> c = 5760 \<or> (8192 \<le> c \<and> c \<le> 8202)
      \<or> c = 8232 \<or> c = 8233 \<or> c = 8239 \<or> c = 8287 \<or> c = 12288 \<or> c = 65279)"

definition trim :: "jsstring \<Rightarrow> jsstring" where
  "trim s = rev (dropWhile is_space (rev (dropWhile is_space s)))"

section \<open>makeSlug\<close>

text \<open>\<open>s.replace(/[p]+/g, r)\<close>: every maximal run of characters of the class \<open>p\<close>
  becomes \<open>r\<close>; \<open>inrun\<close> says that the previous character was of the class.\<close>

fun replace_runs :: "bool \<Rightarrow> (cp \<Rightarrow> bool) \<Rightarrow> jsstring \<Rightarrow> jsstring \<Rightarrow> jsstring" where
  "replace_runs inrun p r [] = []"
| "replace_runs inrun p r (c # cs) =
     (if p c then (if inrun then replace_runs True p r cs else r @ replace_runs True p r cs)
      else c # replace_runs False p r cs)"

definition hyphen :: cp where
  "hyphen = 45"

definition underscore :: cp where
  "underscore = 95"

definition makeSlug :: "platform \<Rightarrow> jsstring \<Rightarrow> jsstring" where
  "makeSlug P input =
     (let s1 = toLowerCase P input;
          s2 = trim s1;
          s3 = filter (\<lambda>c. isLetter P c \<or> isNumber P c \<or> is_space c \<or> c = hyphen) s2;
          s4 = replace_runs False (\<lambda>c. is_space c \<or> c = underscore) [hyphen] s3;
          s5 = replace_runs False (\<lambda>c. c = hyphen) [hyphen] s4
      in rev (dropWhile (\<lambda>c. c = hyphen) (rev (dropWhile (\<lambda>c. c = hyphen) s5))))"

section \<open>parseTagValue\<close>

text \<open>\<open>v.k\<close> where \<open>v\<close> is known not to be \<open>undefined\<close> or \<open>null\<close>, so that the read
  cannot throw.\<close>

definition prop_of :: "jsval \<Rightarrow> jsstring \<Rightarrow> jsval" where
  "prop_of v k = (case get_prop v k of Inl _ \<Rightarrow> JUndefined | Inr x \<Rightarrow> x)"

text \<open>The filter of \<open>parseTagValue\<close>: \<open>t && typeof t === 'object' && t.name\<close>. The
  name is read only of a truthy object.\<close>

definition keeps :: "jsval \<Rightarrow> bool" where
  "keeps t = (truthy t \<and> typeof_object t \<and> truthy (prop_of t (ascii ''name'')))"

text \<open>The map of \<open>parseTagValue\<close>:
  \<open>{ documentId: t.documentId || '', name: String(t.name) }\<close>.\<close>

definition toTag :: "jsval \<Rightarrow> exn + TagData" where
  "toTag t =
     (case ToString (prop_of t (ascii ''name'')) of
        Inl e \<Rightarrow> Inl e
      | Inr s \<Rightarrow>
          Inr \<lparr> documentId =
                  (let d = prop_of t (ascii ''documentId'') in if truthy d then d else JStr []),
                name = JStr s \<rparr>)"

text \<open>\<open>Array.prototype.map\<close> with a callback that may throw: the first exception ends
  the loop.\<close>

fun mapE :: "('a \<Rightarrow> exn + 'b) \<Rightarrow> 'a list \<Rightarrow> exn + 'b list" where
  "mapE f [] = Inr []"
| "mapE f (x # xs) =
     (case f x of
        Inl e \<Rightarrow> Inl e
      | Inr y \<Rightarrow> (case mapE f xs of Inl e \<Rightarrow> Inl e | Inr ys \<Rightarrow> Inr (y # ys)))"

definition parseTagValue :: "platform \<Rightarrow> jsval \<Rightarrow> exn + TagData list" where
  "parseTagValue P v =
     (if \<not> truthy v then Inr []
      else
        (case (case v of JStr s \<Rightarrow> JSON_parse P s | _ \<Rightarrow> Some v) of
           None \<Rightarrow> Inr []
         | Some d \<Rightarrow>
             (case d of
                JArr xs \<Rightarrow> mapE toTag (filter keeps xs)
              | _ \<Rightarrow> Inr [])))"

section \<open>JSON.stringify\<close>

definition hexdigit :: "nat \<Rightarrow> cp" where
  "hexdigit d = (if d < 10 then 48 + d else 87 + d)"

definition hex4 :: "cp \<Rightarrow> jsstring" where
  "hex4 c = [hexdigit (c div 4096 mod 16), hexdigit (c div 256 mod 16),
             hexdigit (c div 16 mod 16), hexdigit (c mod 16)]"

text \<open>\<open>QuoteJSONString\<close>: the short escapes, \<open>\uXXXX\<close> for the other control characters
  and for surrogates, every other code point as it is.\<close>

definition escape :: "cp \<Rightarrow> jsstring" where
  "escape c =
     (if c = 8 then [92, 98]
      else if c = 9 then [92, 116]
      else if c = 10 then [92, 110]
      else if c = 12 then [92, 102]
      else if c = 13 then [92, 114]
      else if c = 34 then [92, 34]
      else if c = 92 then [92, 92]
      else if c < 32 \<or> (55296 \<le> c \<and> c \<le> 57343) then [92, 117] @ hex4 c
      else [c])"

definition quote :: "jsstring \<Rightarrow> jsstring" where
  "quote s = 34 # concat (map escape s) @ [34]"

fun commas :: "jsstring list \<Rightarrow> jsstring" where
  "commas [] = []"
| "commas [x] = x"
| "commas (x # y # ys) = x @ 44 # commas (y # ys)"

text \<open>\<open>SerializeJSONProperty\<close>: \<open>None\<close> is \<open>undefined\<close>, which an array writes as
  \<open>null\<close> and an object leaves out. The properties of an object are written in the
  order of the list.\<close>

fun ser :: "jsval \<Rightarrow> jsstring option"
  and ser_elems :: "jsval list \<Rightarrow> jsstring list"
  and ser_props :: "(jsstring \<times> jsval) list \<Rightarrow> jsstring list" where
  "ser JUndefined = None"
| "ser JNull = Some (ascii ''null'')"
| "ser (JBool b) = Some (if b then ascii ''true'' else ascii ''false'')"
| "ser (JNum n) = Some (Number_toString n)"
| "ser (JStr s) = Some (quote s)"
| "ser (JArr xs) = Some (91 # commas (ser_elems xs) @ [93])"
| "ser (JObj fs) = Some (123 # commas (ser_props fs) @ [125])"
| "ser_elems [] = []"
| "ser_elems (x # xs) = (case ser x of None \<Rightarrow> ascii ''null'' | Some s \<Rightarrow> s) # ser_elems xs"
| "ser_props [] = []"
| "ser_props (kv # fs) =
     (case ser (snd kv) of
        None \<Rightarrow> ser_props fs
      | Some s \<Rightarrow> (quote (fst kv) @ 58 # s) # ser_props fs)"

text \<open>A tag as the object literal \<open>{ documentId, name }\<close>, and \<open>JSON.stringify\<close> of
  an array of tags.\<close>

definition tag_obj :: "TagData \<Rightarrow> jsval" where
  "tag_obj t = JObj [(ascii ''documentId'', documentId t), (ascii ''name'', name t)]"

definition JSON_stringify :: "TagData list \<Rightarrow> jsstring" where
  "JSON_stringify ts = 91 # commas (ser_elems (map tag_obj ts)) @ [93]"

section \<open>A reference JSON.parse\<close>

text \<open>
  A recursive-descent reader of the JSON grammar, to run the component on concrete
  texts. Each call spends one unit of fuel, of which \<open>ref_parse\<close> gives twice the
  length of the text and one; a number literal with a fraction or an exponent is not an
  integer and is refused.
\<close>

definition skip_ws :: "jsstring \<Rightarrow> jsstring" where
  "skip_ws = dropWhile (\<lambda>c. c = 32 \<or> c = 9 \<or> c = 10 \<or> c = 13)"

definition hexval :: "cp \<Rightarrow> nat option" where
  "hexval c =
     (if 48 \<le> c \<and> c \<le> 57 then Some (c - 48)
      else if 97 \<le> c \<and> c \<le> 102 then Some (c - 87)
      else if 65 \<le> c \<and> c \<le> 70 then Some (c - 55)
      else None)"

definition hex4_value :: "jsstring \<Rightarrow> cp option" where
  "hex4_value cs =
     (case map hexval (take 4 cs) of
        [Some x, Some y, Some z, Some w] \<Rightarrow> Some (x * 4096 + y * 256 + z * 16 + w)
      | _ \<Rightarrow> None)"

definition unescape :: "cp \<Rightarrow> cp option" where
  "unescape e =
     (if e = 34 \<or> e = 92 \<or> e = 47 then Some e
      else if e = 98 then Some 8
      else if e = 116 then Some 9
      else if e = 110 then Some 10
      else if e = 102 then Some 12
      else if e = 114 then Some 13
      else None)"

text \<open>The characters of a string literal after its opening quote, up to the closing
  one; an escape \<open>\uXXXX\<close> gives the code unit it names.\<close>

function read_chars :: "jsstring \<Rightarrow> (jsstring \<times> jsstring) option" where
  "read_chars [] = None"
| "read_chars (c # cs) =
     (if c = 34 then Some ([], cs)
      else if c < 32 then None
      else if c \<noteq> 92 then
        (case read_chars cs of None \<Rightarrow> None | Some (s, r) \<Rightarrow> Some (c # s, r))
      else
        (case cs of
           [] \<Rightarrow> None
         | e # cs' \<Rightarrow>
             (if e = 117 then
                (case hex4_value cs' of
                   None \<Rightarrow> None
                 | Some h \<Rightarrow>
                     (case read_chars (drop 4 cs') of
                        None \<Rightarrow> None
                      | Some (s, r) \<Rightarrow> Some (h # s, r)))
              else
                (case unescape e of
                   None \<Rightarrow> None
                 | Some u \<Rightarrow>
                     (case read_chars cs' of
                        None \<Rightarrow> None
                      | Some (s, r) \<Rightarrow> Some (u # s, r))))))"
  by pat_completeness auto
termination
  by (relation "measure length") auto

declare read_chars.simps [simp del]

text \<open>A high surrogate followed by a low one is one code point.\<close>

fun join_surrogates :: "jsstring \<Rightarrow> jsstring" where
  "join_surrogates (h # l # r) =
     (if 55296 \<le> h \<and> h \<le> 56319 \<and> 56320 \<le> l \<and> l \<le> 57343
      then (65536 + (h - 55296) * 1024 + (l - 56320)) # join_surrogates r
      else h # join_surrogates (l # r))"
| "join_surrogates cs = cs"

definition read_string :: "jsstring \<Rightarrow> (jsstring \<times> jsstring) option" where
  "read_string cs =
     (case read_chars cs of None \<Rightarrow> None | Some (s, r) \<Rightarrow> Some (join_surrogates s, r))"

definition is_digit :: "cp \<Rightarrow> bool" where
  "is_digit c = (48 \<le> c \<and> c \<le> 57)"

definition digits_value :: "jsstring \<Rightarrow> nat" where
  "digits_value ds = foldl (\<lambda>n c. 10 * n + (c - 48)) 0 ds"

text \<open>An integer literal: an optional minus sign, then \<open>0\<close> or digits without a leading
  zero.\<close>

definition read_int :: "jsstring \<Rightarrow> (int \<times> jsstring) option" where
  "read_int cs =
     (let neg = (take 1 cs = [45]);
          body = (if neg then drop 1 cs else cs);
          ds = takeWhile is_digit body;
          r = dropWhile is_digit body
      in if ds = [] \<or> (length ds > 1 \<and> take 1 ds = [48]) then None
         else if take 1 r = [46] \<or> take 1 r = [101] \<or> take 1 r = [69] then None
         else Some (if neg then - int (digits_value ds) else int (digits_value ds), r))"

text \<open>\<open>CreateDataProperty\<close>: a repeated key keeps its place and takes the later
  value.\<close>

fun define_prop :: "jsstring \<Rightarrow> jsval \<Rightarrow> (jsstring \<times> jsval) list \<Rightarrow> (jsstring \<times> jsval) list" where
  "define_prop k v [] = [(k, v)]"
| "define_prop k v (kv # fs) = (if fst kv = k then (k, v) # fs else kv # define_prop k v fs)"

definition literal :: "jsstring \<Rightarrow> jsstring \<Rightarrow> bool" where
  "literal w cs = (take (length w) cs = w)"

fun read_value :: "nat \<Rightarrow> jsstring \<Rightarrow> (jsval \<times> jsstring) option"
  and read_elems :: "nat \<Rightarrow> jsstring \<Rightarrow> (jsval list \<times> jsstring) option"
  and read_members :: "nat \<Rightarrow> (jsstring \<times> jsval) list \<Rightarrow> jsstring
        \<Rightarrow> ((jsstring \<times> jsval) list \<times> jsstring) option" where
  "read_value 0 cs = None"
| "read_value (Suc f) cs =
     (case skip_ws cs of
        [] \<Rightarrow> None
      | c # r \<Rightarrow>
          (if c = 91 then
             (if take 1 (skip_ws r) = [93] then Some (JArr [], drop 1 (skip_ws r))
              else (case read_elems f r of
                      None \<Rightarrow> None
                    | Some (vs, r') \<Rightarrow> Some (JArr vs, r')))
           else if c = 123 then
             (if take 1 (skip_ws r) = [125] then Some (JObj [], drop 1 (skip_ws r))
              else (case read_members f [] r of
                      None \<Rightarrow> None
                    | Some (fs, r') \<Rightarrow> Some (JObj fs, r')))
           else if c = 34 then
             (case read_string r of None \<Rightarrow> None | Some (s, r') \<Rightarrow> Some (JStr s, r'))
           else if literal (ascii ''null'') (c # r) then Some (JNull, drop 4 (c # r))
           else if literal (ascii ''true'') (c # r) then Some (JBool True, drop 4 (c # r))
           else if literal (ascii ''false'') (c # r) then Some (JBool False, drop 5 (c # r))
           else (case read_int (c # r) of
                   None \<Rightarrow> None
                 | Some (n, r') \<Rightarrow> Some (JNum n, r'))))"
| "read_elems 0 cs = None"
| "read_elems (Suc f) cs =
     (case read_value f cs of
        None \<Rightarrow> None
      | Some (v, r) \<Rightarrow>
          (case skip_ws r of
             [] \<Rightarrow> None
           | c # r' \<Rightarrow>
               (if c = 93 then Some ([v], r')
                else if c = 44 then
                  (case read_elems f r' of
                     None \<Rightarrow> None
                   | Some (vs, r'') \<Rightarrow> Some (v # vs, r''))
                else None)))"
| "read_members 0 acc cs = None"
| "read_members (Suc f) acc cs =
     (case skip_ws cs of
        [] \<Rightarrow> None
      | q # r \<Rightarrow>
          (if q \<noteq> 34 then None
           else
             (case read_string r of
                None \<Rightarrow> None
              | Some (k, r1) \<Rightarrow>
                  (case skip_ws r1 of
                     [] \<Rightarrow> None
                   | c # r2 \<Rightarrow>
                       (if c \<noteq> 58 then None
                        else
                          (case read_value f r2 of
                             None \<Rightarrow> None
                           | Some (v, r3) \<Rightarrow>
                               (case skip_ws r3 of
                                  [] \<Rightarrow> None
                                | d # r4 \<Rightarrow>
                                    (if d = 125 then Some (define_prop k v acc, r4)
                                     else if d = 44 then read_members f (define_prop k v acc) r4
                                     else None))))))))"

definition ref_parse :: "jsstring \<Rightarrow> jsval option" where
  "ref_parse s =
     (case read_value (Suc (2 * length s)) s of
        None \<Rightarrow> None
      | Some (v, r) \<Rightarrow> (if skip_ws r = [] then Some v else None))"

section \<open>encodeURIComponent\<close>

definition utf8 :: "cp \<Rightarrow> nat list option" where
  "utf8 c =
     (if c < 128 then Some [c]
      else if c < 2048 then Some [192 + c div 64, 128 + c mod 64]
      else if 55296 \<le> c \<and> c \<le> 57343 then None
      else if c < 65536 then Some [224 + c div 4096, 128 + c div 64 mod 64, 128 + c mod 64]
      else Some [240 + c div 262144, 128 + c div 4096 mod 64, 128 + c div 64 mod 64,
                 128 + c mod 64])"

definition unreserved :: "cp \<Rightarrow> bool" where
  "unreserved c =
     ((65 \<le> c \<and> c \<le> 90) \<or> (97 \<le> c \<and> c \<le> 122) \<or> (48 \<le> c \<and> c \<le> 57)
      \<or> c \<in> set (ascii ''-_.!~*'') \<or> c = 39 \<or> c = 40 \<or> c = 41)"

definition upper_hex :: "nat \<Rightarrow> cp" where
  "upper_hex d = (if d < 10 then 48 + d else 55 + d)"

definition percent :: "nat \<Rightarrow> jsstring" where
  "percent b = [37, upper_hex (b div 16), upper_hex (b mod 16)]"

text \<open>\<open>None\<close> is the URIError thrown on a lone surrogate.\<close>

fun encodeURIComponent :: "jsstring \<Rightarrow> jsstring option" where
  "encodeURIComponent [] = Some []"
| "encodeURIComponent (c # cs) =
     (if unreserved c then map_option ((#) c) (encodeURIComponent cs)
      else (case utf8 c of
              None \<Rightarrow> None
            | Some bs \<Rightarrow> map_option ((@) (concat (map percent bs))) (encodeURIComponent cs)))"

section \<open>The state of the component\<close>

text \<open>The argument of \<open>onChange\<close>: \<open>{ target: { name, value, type } }\<close>.\<close>

record change_event =
  target_name :: jsstring
  target_value :: jsstring
  target_type :: jsstring

datatype request = Get jsstring | Post jsstring jsval

text \<open>The Tag Directory behind \<open>get\<close> and \<open>post\<close> of \<open>useFetchClient\<close>: a call
  rejects (\<open>Inl\<close>) or resolves with a response.\<close>

record directory =
  http_get :: "jsstring \<Rightarrow> exn + jsval"
  http_post :: "jsstring \<Rightarrow> jsval \<Rightarrow> exn + jsval"

text \<open>A pending \<open>setTimeout\<close> of \<open>handleInputChange\<close>: when it is due, and what its
  callback closes over (\<open>val.trim()\<close>, and the \<open>tags\<close> and \<open>tagApiPath\<close> of
  \<open>searchTags\<close> as it was when the handler was made).\<close>

record timer =
  due :: nat
  timer_query :: jsstring
  timer_tags :: "TagData list"
  timer_path :: jsstring

text \<open>
  The \<open>useState\<close> cells and the refs \<open>hasUserEdited\<close> and \<open>debounceRef\<close> (the pending
  timer, if any), the prop \<open>name\<close>, the calls of \<open>searchTags\<close> that await their
  \<open>get\<close> (each with the \<open>tags\<close> it closed over), and what the component has done to
  its surroundings: the calls of \<open>onChange\<close>, of \<open>get\<close> and \<open>post\<close>, and the queries
  \<open>searchTags\<close> was called with. \<open>dropdownFlip\<close>, which is read off the layout, is
  left out.
\<close>

record state =
  tags :: "TagData list"
  inputValue :: jsstring
  suggestions :: "TagData list"
  showSuggestions :: bool
  selectedIndex :: int
  isCreating :: bool
  tagApiPath :: jsstring
  hasUserEdited :: bool
  debounce :: "timer option"
  fieldName :: jsstring
  in_flight :: "TagData list list"
  notified :: "change_event list"
  requests :: "request list"
  search_calls :: "jsstring list"

text \<open>The state at mount: the initial values of the cells and refs.\<close>

definition mount :: "jsstring \<Rightarrow> state" where
  "mount field =
     \<lparr> tags = [], inputValue = [], suggestions = [], showSuggestions = False,
       selectedIndex = - 1, isCreating = False, tagApiPath = [], hasUserEdited = False,
       debounce = None, fieldName = field, in_flight = [], notified = [], requests = [],
       search_calls = [] \<rparr>"

section \<open>The effects on mount and on value, and updateValue\<close>

definition DEFAULT_TAG_UID :: jsstring where
  "DEFAULT_TAG_UID = ascii ''api::tag.tag''"

text \<open>The first effect, when \<open>get('/tag-manager/config')\<close> has settled:
  \<open>uid = resp?.data?.tagContentType || DEFAULT_TAG_UID\<close>, written into the path by
  a template literal; the default path on any exception.\<close>

definition config_loaded :: "exn + jsval \<Rightarrow> state \<Rightarrow> state" where
  "config_loaded outcome s =
     (case (case outcome of
              Inl e \<Rightarrow> Inl e
            | Inr resp \<Rightarrow>
                (case opt_prop resp (ascii ''data'') of
                   Inl e \<Rightarrow> Inl e
                 | Inr d \<Rightarrow>
                     (case opt_prop d (ascii ''tagContentType'') of
                        Inl e \<Rightarrow> Inl e
                      | Inr u \<Rightarrow> ToString (if truthy u then u else JStr DEFAULT_TAG_UID)))) of
        Inl e \<Rightarrow> s\<lparr>tagApiPath := ascii ''/content-manager/collection-types/'' @ DEFAULT_TAG_UID\<rparr>
      | Inr uid \<Rightarrow> s\<lparr>tagApiPath := ascii ''/content-manager/collection-types/'' @ uid\<rparr>)"

text \<open>The second effect, run at mount and whenever the prop \<open>value\<close> changes: nothing
  once the user has edited, and \<open>setTags\<close> only of a non-empty list.\<close>

definition initialize :: "platform \<Rightarrow> jsval \<Rightarrow> state \<Rightarrow> exn + state" where
  "initialize P v s =
     (if hasUserEdited s then Inr s
      else (case parseTagValue P v of
              Inl e \<Rightarrow> Inl e
            | Inr parsed \<Rightarrow> Inr (if length parsed > 0 then s\<lparr>tags := parsed\<rparr> else s)))"

definition change_of :: "jsstring \<Rightarrow> TagData list \<Rightarrow> change_event" where
  "change_of field newTags =
     \<lparr> target_name = field, target_value = JSON_stringify newTags, target_type = ascii ''json'' \<rparr>"

definition updateValue :: "TagData list \<Rightarrow> state \<Rightarrow> state" where
  "updateValue newTags s =
     s\<lparr> hasUserEdited := True,
        tags := newTags,
        notified := notified s @ [change_of (fieldName s) newTags] \<rparr>"

section \<open>searchTags and handleInputChange\<close>

text \<open>\<open>searchTags\<close> up to its \<open>await\<close>. \<open>path\<close> and \<open>captured\<close> are the
  \<open>tagApiPath\<close> and \<open>tags\<close> of the closure.\<close>

definition searchTags_issue :: "jsstring \<Rightarrow> TagData list \<Rightarrow> jsstring \<Rightarrow> state \<Rightarrow> state" where
  "searchTags_issue path captured query s =
     (let s1 = s\<lparr>search_calls := search_calls s @ [query]\<rparr> in
      if query = [] \<or> length query < 1 \<or> path = [] then
        s1\<lparr>suggestions := [], showSuggestions := False\<rparr>
      else
        (case encodeURIComponent query of
           None \<Rightarrow> s1\<lparr>suggestions := []\<rparr>
         | Some q \<Rightarrow>
             s1\<lparr> requests := requests s1 @ [Get (path @ ascii ''?page=1&pageSize=10&_q='' @ q)],
                 in_flight := in_flight s1 @ [captured] \<rparr>))"

text \<open>\<open>response.data?.results || []\<close>\<close>

definition results_of :: "jsval \<Rightarrow> exn + jsval" where
  "results_of response =
     (case get_prop response (ascii ''data'') of
        Inl e \<Rightarrow> Inl e
      | Inr d \<Rightarrow>
          (case opt_prop d (ascii ''results'') of
             Inl e \<Rightarrow> Inl e
           | Inr r \<Rightarrow> Inr (if truthy r then r else JArr [])))"




text \<open>\<open>handleInputChange\<close> at the time \<open>now\<close> (in milliseconds): \<open>clearTimeout\<close> of the
  pending timer and a new one, due 250 ms later.\<close>

definition handleInputChange :: "nat \<Rightarrow> jsstring \<Rightarrow> state \<Rightarrow> state" where
  "handleInputChange now val s =
     s\<lparr> inputValue := val,
        debounce := Some \<lparr> due = now + 250, timer_query = trim val,
                            timer_tags = tags s, timer_path = tagApiPath s \<rparr> \<rparr>"

text \<open>The clock reaches \<open>now\<close>: a pending timer that is due runs its callback.\<close>

definition advance :: "nat \<Rightarrow> state \<Rightarrow> state" where
  "advance now s =
     (case debounce s of
        None \<Rightarrow> s
      | Some t \<Rightarrow>
          (if due t \<le> now
           then searchTags_issue (timer_path t) (timer_tags t) (timer_query t) (s\<lparr>debounce := None\<rparr>)
           else s))"

text \<open>Changes of the draft text, each with the time at which it arrives.\<close>

fun type_burst :: "(nat \<times> jsstring) list \<Rightarrow> state \<Rightarrow> state" where
  "type_burst [] s = s"
| "type_burst (e # es) s = type_burst es (handleInputChange (fst e) (snd e) (advance (fst e) s))"

section \<open>findOrCreateTag\<close>

text \<open>\<open>tags.find((t) => t.name.toLowerCase() === trimmed.toLowerCase())\<close>: the tags in
  order, up to the first match. \<open>toLowerCase\<close> is a method of strings only: on a
  name that is not a string the call throws a TypeError.\<close>

fun find_name :: "platform \<Rightarrow> jsstring \<Rightarrow> TagData list \<Rightarrow> exn + bool" where
  "find_name P trimmed [] = Inr False"
| "find_name P trimmed (t # ts) =
     (case name t of
        JStr n \<Rightarrow>
          (if toLowerCase P n = toLowerCase P trimmed then Inr True else find_name P trimmed ts)
      | _ \<Rightarrow> Inl TypeError)"

text \<open>\<open>v > 0\<close>: \<open>ToNumber\<close> of \<open>v\<close> (of its string, for an array or an object)
  against zero; \<open>NaN > 0\<close> is false.\<close>

fun greater_zero :: "platform \<Rightarrow> jsval \<Rightarrow> exn + bool" where
  "greater_zero P JUndefined = Inr False"
| "greater_zero P JNull = Inr False"
| "greater_zero P (JBool b) = Inr b"
| "greater_zero P (JNum n) = Inr (n > 0)"
| "greater_zero P (JStr s) = Inr (positiveNumeral P s)"
| "greater_zero P v =
     (case ToString v of Inl e \<Rightarrow> Inl e | Inr s \<Rightarrow> Inr (positiveNumeral P s))"

text \<open>\<open>existing.length > 0\<close>: the length of an array or of a string, the own property
  \<open>length\<close> of an object; a number or a boolean has none.\<close>

fun length_positive :: "platform \<Rightarrow> jsval \<Rightarrow> exn + bool" where
  "length_positive P JUndefined = Inl TypeError"
| "length_positive P JNull = Inl TypeError"
| "length_positive P (JArr xs) = Inr (length xs > 0)"
| "length_positive P (JStr s) = Inr (length s > 0)"
| "length_positive P (JObj fs) =
     (case map_of fs (ascii ''length'') of None \<Rightarrow> Inr False | Some l \<Rightarrow> greater_zero P l)"
| "length_positive P _ = Inr False"

text \<open>\<open>existing[0]\<close>: of a string, its first code unit as a string.\<close>

definition first_unit :: "cp \<Rightarrow> cp" where
  "first_unit c = (if c < 65536 then c else 55296 + (c - 65536) div 1024)"

fun index0 :: "jsval \<Rightarrow> jsval" where
  "index0 (JArr xs) = (case xs of [] \<Rightarrow> JUndefined | x # _ \<Rightarrow> x)"
| "index0 (JStr s) = (case s of [] \<Rightarrow> JUndefined | c # _ \<Rightarrow> JStr [first_unit c])"
| "index0 (JObj fs) = (case map_of fs (ascii ''0'') of None \<Rightarrow> JUndefined | Some v \<Rightarrow> v)"
| "index0 _ = JUndefined"

text \<open>From the response of the exact search to the tag it names, if any:
  \<open>existing = searchResp.data?.results || []\<close>, and when \<open>existing.length > 0\<close> the
  tag \<open>{ documentId: existing[0].documentId, name: existing[0].name }\<close>.\<close>

definition existing_of :: "platform \<Rightarrow> jsval \<Rightarrow> exn + TagData option" where
  "existing_of P searchResp =
     (case results_of searchResp of
        Inl e \<Rightarrow> Inl e
      | Inr existing \<Rightarrow>
          (case length_positive P existing of
             Inl e \<Rightarrow> Inl e
           | Inr False \<Rightarrow> Inr None
           | Inr True \<Rightarrow>
               (case get_prop (index0 existing) (ascii ''documentId'') of
                  Inl e \<Rightarrow> Inl e
                | Inr d \<Rightarrow>
                    (case get_prop (index0 existing) (ascii ''name'') of
                       Inl e \<Rightarrow> Inl e
                     | Inr n \<Rightarrow> Inr (Some \<lparr> documentId = d, name = n \<rparr>)))))"

text \<open>From the response of the creation to the new tag:
  \<open>created = createResp.data?.data || createResp.data\<close>, and when
  \<open>created?.documentId\<close> is truthy the tag
  \<open>{ documentId: created.documentId, name: created.name || trimmed }\<close>, else \<open>null\<close>.\<close>

definition created_of :: "jsstring \<Rightarrow> jsval \<Rightarrow> exn + TagData option" where
  "created_of trimmed createResp =
     (case get_prop createResp (ascii ''data'') of
        Inl e \<Rightarrow> Inl e
      | Inr d \<Rightarrow>
          (case opt_prop d (ascii ''data'') of
             Inl e \<Rightarrow> Inl e
           | Inr inner \<Rightarrow>
               (let created = (if truthy inner then inner else d) in
                case opt_prop created (ascii ''documentId'') of
                  Inl e \<Rightarrow> Inl e
                | Inr i \<Rightarrow>
                    (if truthy i then
                       (case get_prop created (ascii ''name'') of
                          Inl e \<Rightarrow> Inl e
                        | Inr n \<Rightarrow>
                            Inr (Some \<lparr> documentId = i,
                                        name = (if truthy n then n else JStr trimmed) \<rparr>))
                     else Inr None))))"

definition exact_url :: "jsstring \<Rightarrow> jsstring \<Rightarrow> jsstring" where
  "exact_url path q = path @ ascii ''?page=1&pageSize=1&filters[$and][0][name][$eqi]='' @ q"

definition create_body :: "platform \<Rightarrow> jsstring \<Rightarrow> jsval" where
  "create_body P trimmed =
     (let slug = makeSlug P trimmed
      in JObj [(ascii ''name'', JStr trimmed), (ascii ''slug'', JStr slug)])"

text \<open>The \<open>try\<close> block of \<open>findOrCreateTag\<close>: what it returns or throws, and the calls
  it has made of the Directory.\<close>

definition lookup_or_create ::
    "platform \<Rightarrow> directory \<Rightarrow> jsstring \<Rightarrow> jsstring \<Rightarrow> (exn + TagData option) \<times> request list" where
  "lookup_or_create P D path trimmed =
     (case encodeURIComponent trimmed of
        None \<Rightarrow> (Inl URIError, [])
      | Some q \<Rightarrow>
          (let url = exact_url path q in
           case http_get D url of
             Inl e \<Rightarrow> (Inl e, [Get url])
           | Inr searchResp \<Rightarrow>
               (case existing_of P searchResp of
                  Inl e \<Rightarrow> (Inl e, [Get url])
                | Inr (Some t) \<Rightarrow> (Inr (Some t), [Get url])
                | Inr None \<Rightarrow>
                    (let body = create_body P trimmed
                     in case http_post D path body of
                          Inl e \<Rightarrow> (Inl e, [Get url, Post path body])
                        | Inr createResp \<Rightarrow>
                            (created_of trimmed createResp, [Get url, Post path body])))))"

text \<open>
  \<open>findOrCreateTag\<close>, its awaits answered by the Directory \<open>D\<close>: the result (\<open>Inl\<close>
  when the promise rejects, \<open>Inr None\<close> for \<open>null\<close>) and the state it leaves. The
  guards and the search for a duplicate name stand before \<open>setIsCreating(true)\<close> and
  before the \<open>try\<close>; \<open>catch\<close> turns every exception of the block into \<open>null\<close> and
  \<open>finally\<close> resets \<open>isCreating\<close>.
\<close>

definition findOrCreateTag ::
    "platform \<Rightarrow> directory \<Rightarrow> jsstring \<Rightarrow> state \<Rightarrow> (exn + TagData option) \<times> state" where
  "findOrCreateTag P D tagName s =
     (let trimmed = trim tagName in
      if trimmed = [] \<or> tagApiPath s = [] then (Inr None, s)
      else
        (case find_name P trimmed (tags s) of
           Inl e \<Rightarrow> (Inl e, s)
         | Inr True \<Rightarrow> (Inr None, s)
         | Inr False \<Rightarrow>
             (let s1 = s\<lparr>isCreating := True\<rparr>;
                  (r, calls) = lookup_or_create P D (tagApiPath s) trimmed;
                  s2 = s1\<lparr>requests := requests s1 @ calls\<rparr>
              in ((case r of Inl e \<Rightarrow> Inr None | Inr t \<Rightarrow> Inr t), s2\<lparr>isCreating := False\<rparr>))))"

section \<open>addTag, removeTag and handleKeyDown\<close>

text \<open>The end of \<open>addTag\<close>: the draft and the suggestions are cleared.
  \<open>inputRef.current?.focus()\<close>, and what the \<open>onFocus\<close> handler of the input does
  then, are left out.\<close>

definition clear_draft :: "state \<Rightarrow> state" where
  "clear_draft s = s\<lparr>inputValue := [], suggestions := [], showSuggestions := False\<rparr>"

text \<open>\<open>addTag\<close> of a string: the exception its promise rejects with, if it does (no
  caller handles it), and the state it leaves. \<open>[...tags, tag]\<close> is built from the
  \<open>tags\<close> of the closure.\<close>

definition addTag_name :: "platform \<Rightarrow> directory \<Rightarrow> jsstring \<Rightarrow> state \<Rightarrow> exn option \<times> state" where
  "addTag_name P D tagName s =
     (case findOrCreateTag P D tagName s of
        (Inl e, s1) \<Rightarrow> (Some e, s1)
      | (Inr None, s1) \<Rightarrow> (None, clear_draft s1)
      | (Inr (Some t), s1) \<Rightarrow> (None, clear_draft (updateValue (tags s @ [t]) s1)))"

text \<open>\<open>addTag\<close> of a tag (a suggestion): it returns at once when a committed tag has
  the same \<open>documentId\<close>. Here and in \<open>removeTag\<close>, \<open>===\<close> and \<open>!==\<close> are equality
  of values: exact for strings and the other primitives, while two arrays or objects,
  which JavaScript compares by reference, are taken as equal when their contents
  are.\<close>

definition addTag_tag :: "TagData \<Rightarrow> state \<Rightarrow> state" where
  "addTag_tag t s =
     (if documentId t \<in> set (map documentId (tags s)) then s
      else clear_draft (updateValue (tags s @ [t]) s))"

definition removeTag :: "jsval \<Rightarrow> state \<Rightarrow> state" where
  "removeTag i s = updateValue (filter (\<lambda>t. documentId t \<noteq> i) (tags s)) s"

text \<open>\<open>handleKeyDown\<close>, with the exception an \<open>addTag\<close> it started rejects with, if
  any.\<close>

datatype key = Enter | Comma | Backspace | ArrowDown | ArrowUp | Escape | Other

definition handleKeyDown :: "platform \<Rightarrow> directory \<Rightarrow> key \<Rightarrow> state \<Rightarrow> exn option \<times> state" where
  "handleKeyDown P D k s =
     (if k = Enter \<or> k = Comma then
        (if selectedIndex s \<ge> 0 \<and> selectedIndex s < int (length (suggestions s))
         then (None, addTag_tag (suggestions s ! nat (selectedIndex s)) s)
         else if trim (inputValue s) \<noteq> [] then addTag_name P D (trim (inputValue s)) s
         else (None, s))
      else if k = Backspace \<and> inputValue s = [] \<and> length (tags s) > 0 then
        (None, removeTag (documentId (tags s ! (length (tags s) - 1))) s)
      else if k = ArrowDown then
        (None, s\<lparr>selectedIndex := min (selectedIndex s + 1) (int (length (suggestions s)) - 1)\<rparr>)
      else if k = ArrowUp then
        (None, s\<lparr>selectedIndex := max (selectedIndex s - 1) (- 1)\<rparr>)
      else if k = Escape then
        (None, s\<lparr>showSuggestions := False, selectedIndex := - 1\<rparr>)
      else (None, s))"

section \<open>A platform to run the component on\<close>

text \<open>
  A platform that agrees with the engine on the texts used below: \<open>toLowerCase\<close> and
  the letters and digits of Basic Latin, the letters (consonants, independent vowels
  and signs of category Lo or Lm) and digits of the Devanagari block, whose vowel signs
  (category Mc or Mn) are not letters, the reference \<open>JSON.parse\<close>, and the numerals
  made of decimal digits only.
\<close>

definition ascii_lower :: "cp \<Rightarrow> cp" where
  "ascii_lower c = (if 65 \<le> c \<and> c \<le> 90 then c + 32 else c)"

definition sample_letter :: "cp \<Rightarrow> bool" where
  "sample_letter c =
     ((65 \<le> c \<and> c \<le> 90) \<or> (97 \<le> c \<and> c \<le> 122)
      \<or> (2308 \<le> c \<and> c \<le> 2361) \<or> c = 2365 \<or> c = 2384 \<or> (2392 \<le> c \<and> c \<le> 2401)
      \<or> (2417 \<le> c \<and> c \<le> 2431))"

definition sample_number :: "cp \<Rightarrow> bool" where
  "sample_number c = ((48 \<le> c \<and> c \<le> 57) \<or> (2406 \<le> c \<and> c \<le> 2415))"

definition sample_platform :: platform where
  "sample_platform =
     \<lparr> JSON_parse = ref_parse,
       toLowerCase = map ascii_lower,
       isLetter = sample_letter,
       isNumber = sample_number,
       positiveNumeral = (\<lambda>s. s \<noteq> [] \<and> list_all is_digit s \<and> digits_value s > 0) \<rparr>"

section \<open>States and inputs to run the component on\<close>

definition tag :: "string \<Rightarrow> string \<Rightarrow> TagData" where
  "tag i n = \<lparr> documentId = JStr (ascii i), name = JStr (ascii n) \<rparr>"

text \<open>The component after mount and after the configuration request has failed: the
  default path.\<close>

definition ready :: state where
  "ready = config_loaded (Inl TypeError) (mount (ascii ''tagInput''))"

text \<open>A Directory that is out of reach.\<close>

definition offline :: directory where
  "offline = \<lparr> http_get = (\<lambda>u. Inl TypeError), http_post = (\<lambda>u b. Inl TypeError) \<rparr>"

text \<open>A Directory that knows no tag and creates every tag it is asked for, with the
  identifier 7.\<close>

definition creating :: directory where
  "creating =
     \<lparr> http_get = (\<lambda>u. Inr (JObj [(ascii ''data'', JObj [(ascii ''results'', JArr [])])])),
       http_post = (\<lambda>u b. Inr (JObj [(ascii ''data'', JObj [(ascii ''data'',
                      JObj [(ascii ''documentId'', JStr (ascii ''7'')),
                            (ascii ''name'', prop_of b (ascii ''name''))])])])) \<rparr>"

text \<open>The component with one committed tag, not yet edited by the user.\<close>

definition one_tag :: state where
  "one_tag = ready\<lparr>tags := [tag ''1'' ''Go'']\<rparr>"




text \<open>Arrays as the host may hand them over: entries with a number for a
  \<open>documentId\<close> and an empty array for a name, an entry whose name is an object with an
  own \<open>toString\<close> property, and a mix of tags and other values.\<close>

definition untyped_entries :: jsval where
  "untyped_entries =
     JArr [JObj [(ascii ''documentId'', JNum 5), (ascii ''name'', JStr (ascii ''a''))],
           JObj [(ascii ''name'', JArr [])]]"

definition unprintable_entry :: jsval where
  "unprintable_entry = JArr [JObj [(ascii ''name'', JObj [(ascii ''toString'', JNum 1)])]]"

definition mixed_entries :: jsval where
  "mixed_entries =
     JArr [JObj [(ascii ''documentId'', JStr (ascii ''1'')), (ascii ''name'', JStr (ascii ''Go''))],
           JNum 7, JNull, JStr (ascii ''x''), JArr [],
           JObj [(ascii ''documentId'', JStr (ascii ''2'')), (ascii ''name'', JStr [])],
           JObj [(ascii ''documentId'', JStr (ascii ''3''))],
           JObj [(ascii ''name'', JStr (ascii ''Rust''))]]"

text \<open>A committed set whose only tag has the empty name.\<close>

definition nameless :: "TagData list" where
  "nameless = [\<lparr> documentId = JStr (ascii ''1''), name = JStr [] \<rparr>]"

text \<open>A Directory whose search answers every name with one record, of identifier 7,
  whose name is the number 5.\<close>

definition misnaming :: directory where
  "misnaming =
     \<lparr> http_get = (\<lambda>u. Inr (JObj [(ascii ''data'', JObj [(ascii ''results'',
                      JArr [JObj [(ascii ''documentId'', JStr (ascii ''7'')),
                                  (ascii ''name'', JNum 5)]])])])),
       http_post = (\<lambda>u b. Inl TypeError) \<rparr>"

section \<open>Predicates of the properties\<close>

text \<open>The platform \<open>P\<close> lower-cases the string \<open>s\<close> as Basic Latin and Devanagari
  text is lower-cased, and classifies the code points of the result as Unicode does.\<close>

definition unicode_excerpt :: "platform \<Rightarrow> jsstring \<Rightarrow> bool" where
  "unicode_excerpt P s =
     (toLowerCase P s = map ascii_lower s
      \<and> list_all (\<lambda>c. isLetter P c = sample_letter c \<and> isNumber P c = sample_number c)
           (map ascii_lower s))"

text \<open>Two spaces, U+092E U+0930 U+093E U+0920 U+0940, two spaces, U+092D U+093E U+0937
  U+093E, one space.\<close>

definition marathi_bhasha :: jsstring where
  "marathi_bhasha = [32, 32, 2350, 2352, 2366, 2336, 2368, 32, 32, 2349, 2366, 2359, 2366, 32]"

text \<open>A committed tag has the name \<open>nm\<close>, trimmed, up to case: the test of
  \<open>findOrCreateTag\<close>.\<close>

definition name_present :: "platform \<Rightarrow> jsstring \<Rightarrow> TagData list \<Rightarrow> bool" where
  "name_present P nm ts =
     list_ex (\<lambda>t. case name t of JStr n \<Rightarrow> toLowerCase P n = toLowerCase P (trim nm) | _ \<Rightarrow> False) ts"

text \<open>The names of the committed tags are strings, as \<open>TagData\<close> declares.\<close>

definition names_are_strings :: "TagData list \<Rightarrow> bool" where
  "names_are_strings ts = list_all (\<lambda>t. is_string (name t)) ts"

text \<open>\<open>created?.documentId\<close> of a response to the creation, \<open>undefined\<close> where a
  step of the path is missing.\<close>

definition identifier_of :: "jsval \<Rightarrow> jsval" where
  "identifier_of createResp =
     (let d = prop_of createResp (ascii ''data'');
          inner = prop_of d (ascii ''data'');
          created = (if truthy inner then inner else d)
      in prop_of created (ascii ''documentId''))"

text \<open>
  The Directory fails the resolution of a name: the request cannot be written or the
  search rejects or answers with something that cannot be read (an exception), or the
  search finds nothing and the creation rejects (not found, then create failure), or
  the response to the creation has no identifier.
\<close>

definition directory_failure :: "platform \<Rightarrow> directory \<Rightarrow> jsstring \<Rightarrow> jsstring \<Rightarrow> bool" where
  "directory_failure P D path trimmed =
     (case encodeURIComponent trimmed of
        None \<Rightarrow> True
      | Some q \<Rightarrow>
          (case http_get D (exact_url path q) of
             Inl e \<Rightarrow> True
           | Inr searchResp \<Rightarrow>
               (case existing_of P searchResp of
                  Inl e \<Rightarrow> True
                | Inr (Some t) \<Rightarrow> False
                | Inr None \<Rightarrow>
                    (case http_post D path (create_body P trimmed) of
                       Inl e \<Rightarrow> True
                     | Inr createResp \<Rightarrow> \<not> truthy (identifier_of createResp)))))"

text \<open>Changes of the draft that arrive in order of time, each less than 250 ms after
  the one before.\<close>

fun rapid :: "(nat \<times> jsstring) list \<Rightarrow> bool" where
  "rapid (e # f # es) = (fst e \<le> fst f \<and> fst f < fst e + 250 \<and> rapid (f # es))"
| "rapid _ = True"

text \<open>No timer is pending that is due at the time \<open>now\<close> or before.\<close>

definition none_due :: "nat \<Rightarrow> state \<Rightarrow> bool" where
  "none_due now s = (case debounce s of None \<Rightarrow> True | Some t \<Rightarrow> now < due t)"


text \<open>The array that a value holds: the value itself, or what \<open>JSON.parse\<close> makes of
  a string; no entries when the value is falsy, does not parse or is not an array.\<close>

definition entries_of :: "platform \<Rightarrow> jsval \<Rightarrow> jsval list" where
  "entries_of P v =
     (if \<not> truthy v then []
      else (case (case v of JStr s \<Rightarrow> JSON_parse P s | _ \<Rightarrow> Some v) of
              Some (JArr xs) \<Rightarrow> xs
            | _ \<Rightarrow> []))"

text \<open>The tag \<open>t\<close> is the entry \<open>e\<close> decoded: its name is \<open>String(e.name)\<close>, its
  \<open>documentId\<close> is that of the entry when truthy, of whatever type, and \<open>''\<close>
  otherwise.\<close>

definition tag_of_entry :: "jsval \<Rightarrow> TagData \<Rightarrow> bool" where
  "tag_of_entry e t =
     (is_string (name t)
      \<and> ToString (prop_of e (ascii ''name'')) = ToString (name t)
      \<and> documentId t =
          (if truthy (prop_of e (ascii ''documentId'')) then prop_of e (ascii ''documentId'')
           else JStr []))"

text \<open>A value that is empty, does not parse, or is not an array.\<close>

definition undecodable :: "platform \<Rightarrow> jsval \<Rightarrow> bool" where
  "undecodable P v =
     (\<not> truthy v
      \<or> (case v of
            JStr x \<Rightarrow> (case JSON_parse P x of None \<Rightarrow> True | Some d \<Rightarrow> \<not> isArray d)
          | JArr xs \<Rightarrow> False
          | _ \<Rightarrow> True))"

text \<open>A tag whose fields are strings in which no high surrogate stands directly before
  a low one (the two would be one code point).\<close>

definition canonical :: "TagData \<Rightarrow> bool" where
  "canonical t =
     (case documentId t of
        JStr d \<Rightarrow> (case name t of JStr n \<Rightarrow> join_surrogates d = d \<and> join_surrogates n = n | _ \<Rightarrow> False)
      | _ \<Rightarrow> False)"

section \<open>Evaluation\<close>

lemmas run_defs = ready_def mount_def config_loaded_def DEFAULT_TAG_UID_def ascii_def tag_def
  initialize_def parseTagValue_def keeps_def toTag_def prop_of_def handleKeyDown_def removeTag_def
  updateValue_def change_of_def JSON_stringify_def tag_obj_def quote_def escape_def

lemmas slug_defs = makeSlug_def trim_def is_space_def hyphen_def underscore_def ascii_def
  ascii_lower_def sample_letter_def sample_number_def

text \<open>The reader spends its fuel by \<open>Suc\<close>; these are its equations at a numeral.\<close>

lemmas fuel =
  read_value.simps(2) [of "pred_numeral k", folded numeral_eq_Suc]
  read_elems.simps(2) [of "pred_numeral k", folded numeral_eq_Suc]
  read_members.simps(2) [of "pred_numeral k", folded numeral_eq_Suc]
  for k

lemmas json_defs = ref_parse_def ascii_def skip_ws_def literal_def read_int_def is_digit_def
  read_string_def hex4_value_def hexval_def unescape_def digits_value_def fuel

lemmas state_defs = one_tag_def ready_def mount_def config_loaded_def DEFAULT_TAG_UID_def tag_def

lemmas parse_defs = parseTagValue_def keeps_def toTag_def prop_of_def ascii_def tag_def
  untyped_entries_def unprintable_entry_def mixed_entries_def


lemmas stringify_defs = JSON_stringify_def tag_obj_def tag_def quote_def escape_def read_chars.simps
  nameless_def

text \<open>With the Directory that creates what it is asked for, the name \<open>rust\<close> resolves
  to the new tag.\<close>

lemma sample_resolution:
  "fst (findOrCreateTag sample_platform creating (ascii ''rust'') one_tag) = Inr (Some (tag ''7'' ''rust''))"
  by (simp add: findOrCreateTag_def lookup_or_create_def state_defs sample_platform_def creating_def
      ascii_def trim_def is_space_def ascii_lower_def unreserved_def exact_url_def create_body_def
      existing_of_def results_of_def opt_prop_def nullish_def created_of_def prop_of_def Let_def)

section \<open>Backspace\<close>

text \<open>When no other committed tag has the \<open>documentId\<close> of the last one, Backspace on an
  empty draft removes the last tag and nothing else.\<close>

lemma backspace_unique_last:
  assumes "inputValue s = []" and "tags s \<noteq> []"
    and "documentId (last (tags s)) \<notin> set (map documentId (butlast (tags s)))"
  shows "snd (handleKeyDown P D Backspace s) = updateValue (butlast (tags s)) s"
proof -
  have l: "tags s ! (length (tags s) - 1) = last (tags s)"
    using assms(2) by (simp add: last_conv_nth)
  have "filter (\<lambda>t. documentId t \<noteq> documentId (last (tags s))) (butlast (tags s) @ [last (tags s)])
        = butlast (tags s)"
  proof -
    have "\<forall>t \<in> set (butlast (tags s)). documentId t \<noteq> documentId (last (tags s))"
      using assms(3) by (metis image_eqI set_map)
    then show ?thesis by (simp add: filter_id_conv)
  qed
  then have "filter (\<lambda>t. documentId t \<noteq> documentId (last (tags s))) (tags s) = butlast (tags s)"
    using assms(2) by simp
  then show ?thesis
    using assms(1,2) l by (simp add: handleKeyDown_def removeTag_def)
qed

text \<open>
  C9. Pressing Backspace with an empty draft and a non-empty committed set should remove
  exactly the last committed tag and notify the Field Host with the remaining tags.
  The handler removes by \<open>documentId\<close>, so every tag that shares the last tag's
  \<open>documentId\<close> goes with it: the value \<open>[{"name":"a"},{"name":"b"}]\<close> decodes to two
  tags whose \<open>documentId\<close> is the empty string, and one Backspace leaves no tag and
  notifies the host with \<open>[]\<close>, where the tag \<open>a\<close> should remain.
\<close>

theorem backspace_removes_all_sharing_last_id:
  "initialize sample_platform
     (JArr [JObj [(ascii ''name'', JStr (ascii ''a''))], JObj [(ascii ''name'', JStr (ascii ''b''))]])
     ready = Inr (ready\<lparr>tags := [tag [] ''a'', tag [] ''b'']\<rparr>)
   \<and> snd (handleKeyDown sample_platform offline Backspace (ready\<lparr>tags := [tag [] ''a'', tag [] ''b'']\<rparr>))
       = ready\<lparr>tags := [], hasUserEdited := True, notified := [change_of (ascii ''tagInput'') []]\<rparr>
   \<and> target_value (change_of (ascii ''tagInput'') []) = ascii ''[]''"
  by (simp add: run_defs)

section \<open>makeSlug\<close>

text \<open>
  C7. On a platform that lower-cases and classifies the two inputs as Unicode does,
  \<open>makeSlug("Hello, World!")\<close> is \<open>hello-world\<close>, and \<open>makeSlug\<close> of the Devanagari
  input is U+092E U+0930 U+0920, a hyphen, U+092D U+0937: not empty, hyphenated, made of
  characters of the lower-cased input, and without its hyphen exactly the letters
  (category L) of the input, in their order. The vowel signs U+093E and U+0940 are
  marks (category Mc), not letters, and are not in the slug.
\<close>

theorem makeSlug_examples:
  assumes "unicode_excerpt P (ascii ''Hello, World!'')" and "unicode_excerpt P marathi_bhasha"
  shows "makeSlug P (ascii ''Hello, World!'') = ascii ''hello-world''
    \<and> makeSlug P marathi_bhasha = [2350, 2352, 2336, hyphen, 2349, 2359]
    \<and> makeSlug P marathi_bhasha \<noteq> []
    \<and> hyphen \<in> set (makeSlug P marathi_bhasha)
    \<and> filter (\<lambda>c. c \<noteq> hyphen) (makeSlug P marathi_bhasha) = filter (isLetter P) marathi_bhasha
    \<and> set (makeSlug P marathi_bhasha) \<subseteq> insert hyphen (set (toLowerCase P marathi_bhasha))"
proof -
  have h: "makeSlug P (ascii ''Hello, World!'') = ascii ''hello-world''"
    using assms(1) by (simp add: unicode_excerpt_def slug_defs)
  have m: "makeSlug P marathi_bhasha = [2350, 2352, 2336, hyphen, 2349, 2359]"
    using assms(2) by (simp add: unicode_excerpt_def marathi_bhasha_def slug_defs)
  have f: "filter (\<lambda>c. c \<noteq> hyphen) [2350, 2352, 2336, hyphen, 2349, 2359]
           = filter (isLetter P) marathi_bhasha"
    using assms(2) by (simp add: unicode_excerpt_def marathi_bhasha_def slug_defs)
  have l: "toLowerCase P marathi_bhasha = marathi_bhasha"
    using assms(2) by (simp add: unicode_excerpt_def marathi_bhasha_def slug_defs)
  show ?thesis
    unfolding m l using h f by (simp add: marathi_bhasha_def)
qed

theorem makeSlug_examples_witness:
  "unicode_excerpt sample_platform (ascii ''Hello, World!'')
   \<and> unicode_excerpt sample_platform marathi_bhasha
   \<and> makeSlug sample_platform (ascii ''Hello, World!'') = ascii ''hello-world''
   \<and> makeSlug sample_platform marathi_bhasha = [2350, 2352, 2336, 45, 2349, 2359]"
proof -
  have a: "unicode_excerpt sample_platform (ascii ''Hello, World!'')"
    by (simp add: unicode_excerpt_def sample_platform_def slug_defs)
  have b: "unicode_excerpt sample_platform marathi_bhasha"
    by (simp add: unicode_excerpt_def sample_platform_def marathi_bhasha_def slug_defs)
  show ?thesis
    using a b makeSlug_examples [OF a b] by (simp add: hyphen_def)
qed

section \<open>Committing a name that is already there\<close>

lemma dropWhile_rev_dropWhile:
  "dropWhile p (rev (dropWhile p (rev (dropWhile p s)))) = rev (dropWhile p (rev (dropWhile p s)))"
proof (cases "dropWhile p s")
  case Nil
  show ?thesis unfolding Nil by simp
next
  case (Cons x xs)
  then have na: "\<not> p x" by (metis hd_dropWhile list.sel(1) list.distinct(1))
  have "\<exists>zs. dropWhile p (rev xs @ [x]) = zs @ [x]"
  proof (cases "\<forall>y\<in>set (rev xs). p y")
    case True
    then have "dropWhile p (rev xs @ [x]) = [] @ [x]"
      using na by (simp add: dropWhile_append)
    then show ?thesis by blast
  next
    case False
    then have "dropWhile p (rev xs @ [x]) = dropWhile p (rev xs) @ [x]"
      by (auto simp: dropWhile_append)
    then show ?thesis by blast
  qed
  then obtain zs where zs: "dropWhile p (rev xs @ [x]) = zs @ [x]" by blast
  show ?thesis
    unfolding Cons using zs na by simp
qed

lemma trim_idem: "trim (trim s) = trim s"
  unfolding trim_def by (simp add: dropWhile_rev_dropWhile)

lemma find_name_present:
  "name_present P nm ts \<Longrightarrow> find_name P (trim nm) ts \<noteq> Inr False"
  by (induction ts) (auto simp: name_present_def split: jsval.splits)

lemma findOrCreateTag_duplicate:
  assumes "name_present P nm (tags s)"
  shows "snd (findOrCreateTag P D nm s) = s \<and> fst (findOrCreateTag P D nm s) \<noteq> Inr (Some t)"
  using find_name_present [OF assms]
  by (auto simp: findOrCreateTag_def Let_def split: sum.splits bool.splits)

text \<open>
  C4. When a committed tag already has the name, up to case, committing that name
  (\<open>addTag\<close> of the string, or Enter or comma on the draft with no suggestion
  highlighted) leaves the committed set as it was, calls the Tag Directory not at all
  and does not notify the host: the test for a duplicate stands before the first
  request.
\<close>

theorem duplicate_name_is_noop:
  assumes "name_present P nm (tags s)"
  shows "tags (snd (addTag_name P D nm s)) = tags s
    \<and> requests (snd (addTag_name P D nm s)) = requests s
    \<and> notified (snd (addTag_name P D nm s)) = notified s
    \<and> ((k = Enter \<or> k = Comma) \<and> inputValue s = nm
         \<and> \<not> (selectedIndex s \<ge> 0 \<and> selectedIndex s < int (length (suggestions s)))
        \<longrightarrow> tags (snd (handleKeyDown P D k s)) = tags s
          \<and> requests (snd (handleKeyDown P D k s)) = requests s
          \<and> notified (snd (handleKeyDown P D k s)) = notified s)"
proof -
  have a: "tags (snd (addTag_name P D x s)) = tags s
    \<and> requests (snd (addTag_name P D x s)) = requests s
    \<and> notified (snd (addTag_name P D x s)) = notified s" if "name_present P x (tags s)" for x
  proof -
    obtain r s1 where f: "findOrCreateTag P D x s = (r, s1)" by (cases "findOrCreateTag P D x s")
    have "s1 = s" and "\<forall>t. r \<noteq> Inr (Some t)"
      using findOrCreateTag_duplicate [OF that, of D] f by auto
    then show ?thesis
      using f by (auto simp: addTag_name_def clear_draft_def split: sum.splits option.splits)
  qed
  have p: "name_present P (trim nm) (tags s)"
    using assms unfolding name_present_def trim_idem .
  show ?thesis
    using a [OF assms] a [OF p] by (auto simp: handleKeyDown_def)
qed

theorem duplicate_name_is_noop_witness:
  "name_present sample_platform (ascii '' go '') (tags (one_tag\<lparr>inputValue := ascii '' go ''\<rparr>))
   \<and> tags (snd (addTag_name sample_platform offline (ascii '' go '') (one_tag\<lparr>inputValue := ascii '' go ''\<rparr>)))
       = [tag ''1'' ''Go'']
   \<and> requests (snd (addTag_name sample_platform offline (ascii '' go '') (one_tag\<lparr>inputValue := ascii '' go ''\<rparr>))) = []
   \<and> tags (snd (handleKeyDown sample_platform offline Enter (one_tag\<lparr>inputValue := ascii '' go ''\<rparr>)))
       = [tag ''1'' ''Go'']
   \<and> requests (snd (handleKeyDown sample_platform offline Enter (one_tag\<lparr>inputValue := ascii '' go ''\<rparr>))) = []
   \<and> notified (snd (handleKeyDown sample_platform offline Enter (one_tag\<lparr>inputValue := ascii '' go ''\<rparr>))) = []"
proof -
  let ?s = "one_tag\<lparr>inputValue := ascii '' go ''\<rparr>"
  have a: "name_present sample_platform (ascii '' go '') (tags ?s)"
    by (simp add: name_present_def sample_platform_def state_defs ascii_def trim_def is_space_def
        ascii_lower_def)
  have r: "requests ?s = []" "notified ?s = []" "tags ?s = [tag ''1'' ''Go'']" "inputValue ?s = ascii '' go ''"
    "\<not> (selectedIndex ?s \<ge> 0 \<and> selectedIndex ?s < int (length (suggestions ?s)))"
    by (simp_all add: state_defs)
  show ?thesis
    using a r duplicate_name_is_noop [OF a, of offline Enter] by simp
qed

section \<open>findOrCreateTag\<close>

lemma find_name_strings:
  "names_are_strings ts \<Longrightarrow> \<exists>b. find_name P w ts = Inr b"
  by (induction ts) (auto simp: names_are_strings_def is_string_def split: jsval.splits)

lemma opt_prop_eq: "opt_prop v k = Inr (prop_of v k)"
  by (cases v) (auto simp: opt_prop_def prop_of_def nullish_def)

lemma get_prop_cases: "get_prop v k = Inr (prop_of v k) \<or> (nullish v \<and> get_prop v k = Inl TypeError)"
  by (cases v) (auto simp: prop_of_def nullish_def)

lemma created_of_identifier:
  "created_of trimmed cr = Inr (Some t) \<Longrightarrow> truthy (identifier_of cr) \<and> documentId t = identifier_of cr"
  using get_prop_cases [of cr "ascii ''data''"]
  by (auto simp: created_of_def identifier_of_def opt_prop_eq Let_def prop_of_def
      split: sum.splits if_splits)

lemma prop_of_nullish: "nullish v \<Longrightarrow> prop_of v k = JUndefined"
  by (auto simp: nullish_def prop_of_def)

lemma created_of_some:
  assumes "truthy (identifier_of cr)"
  shows "\<exists>t. created_of trimmed cr = Inr (Some t)"
proof -
  define d where "d = prop_of cr (ascii ''data'')"
  define created where
    "created = (if truthy (prop_of d (ascii ''data'')) then prop_of d (ascii ''data'') else d)"
  have i: "truthy (prop_of created (ascii ''documentId''))"
    using assms by (auto simp: identifier_of_def Let_def d_def created_def split: if_splits)
  have nc: "\<not> nullish created"
    using i prop_of_nullish [of created] by auto
  have ncr: "\<not> nullish cr"
  proof
    assume "nullish cr"
    then have "d = JUndefined" by (simp add: d_def prop_of_nullish)
    then have "created = JUndefined" by (simp add: created_def prop_of_def)
    then show False using nc by (simp add: nullish_def)
  qed
  have g1: "get_prop cr (ascii ''data'') = Inr d"
    using get_prop_cases [of cr "ascii ''data''"] ncr by (simp add: d_def)
  have g2: "get_prop created (ascii ''name'') = Inr (prop_of created (ascii ''name''))"
    using get_prop_cases [of created "ascii ''name''"] nc by simp
  show ?thesis
    using i g1 g2 by (simp add: created_of_def opt_prop_eq Let_def created_def)
qed

lemma lookup_or_create_failure:
  "directory_failure P D path trimmed \<Longrightarrow> fst (lookup_or_create P D path trimmed) \<noteq> Inr (Some t)"
  using created_of_identifier [of trimmed _ t]
  by (auto simp: directory_failure_def lookup_or_create_def Let_def
      split: option.splits sum.splits)

lemma lookup_or_create_success:
  "\<not> directory_failure P D path trimmed \<Longrightarrow> \<exists>t. fst (lookup_or_create P D path trimmed) = Inr (Some t)"
  using created_of_some [of _ trimmed]
  by (auto simp: directory_failure_def lookup_or_create_def Let_def
      split: option.splits sum.splits)

lemma find_name_found:
  "find_name P (trim nm) ts = Inr True \<Longrightarrow> name_present P nm ts"
  by (induction ts) (auto simp: name_present_def split: jsval.splits if_splits)

text \<open>
  C6, amended. For every name and every behaviour of the Tag Directory, in a state whose
  committed names are strings, \<open>findOrCreateTag\<close> does not throw; it returns \<open>null\<close>
  whenever the Directory fails (an exception, not found and then a failed creation, a
  response without an identifier) and a tag otherwise, once past its guards; and on
  every exit \<open>isCreating\<close> is false, or the call returned at a guard and left the state
  untouched, so that a flag that was false at the call is false at the return.
\<close>

theorem findOrCreateTag_never_throws:
  assumes "names_are_strings (tags s)"
  shows "(\<exists>r. fst (findOrCreateTag P D nm s) = Inr r)
    \<and> (snd (findOrCreateTag P D nm s) = s \<or> \<not> isCreating (snd (findOrCreateTag P D nm s)))
    \<and> (\<not> isCreating s \<longrightarrow> \<not> isCreating (snd (findOrCreateTag P D nm s)))
    \<and> (directory_failure P D (tagApiPath s) (trim nm) \<longrightarrow> fst (findOrCreateTag P D nm s) = Inr None)
    \<and> (trim nm \<noteq> [] \<and> tagApiPath s \<noteq> [] \<and> \<not> name_present P nm (tags s)
         \<and> \<not> directory_failure P D (tagApiPath s) (trim nm)
        \<longrightarrow> (\<exists>t. fst (findOrCreateTag P D nm s) = Inr (Some t)))"
proof -
  obtain b where b: "find_name P (trim nm) (tags s) = Inr b"
    using find_name_strings [OF assms] by blast
  obtain r calls where l: "lookup_or_create P D (tagApiPath s) (trim nm) = (r, calls)"
    by (cases "lookup_or_create P D (tagApiPath s) (trim nm)")
  have f: "directory_failure P D (tagApiPath s) (trim nm) \<Longrightarrow> r = Inr x \<Longrightarrow> x = None" for x
    using lookup_or_create_failure [of P D "tagApiPath s" "trim nm"] l by (cases x) auto
  have g: "\<not> directory_failure P D (tagApiPath s) (trim nm) \<Longrightarrow> \<exists>t. r = Inr (Some t)"
    using lookup_or_create_success [of P D "tagApiPath s" "trim nm"] l by simp
  have np: "b \<Longrightarrow> name_present P nm (tags s)"
    using find_name_found [of P nm "tags s"] b by simp
  show ?thesis
  proof (cases "trim nm = [] \<or> tagApiPath s = [] \<or> b")
    case True
    then have e: "findOrCreateTag P D nm s = (Inr None, s)"
      using b by (auto simp: findOrCreateTag_def Let_def)
    show ?thesis
      unfolding e using True np by auto
  next
    case False
    then have e: "findOrCreateTag P D nm s =
        ((case r of Inl e \<Rightarrow> Inr None | Inr t \<Rightarrow> Inr t),
         s\<lparr>isCreating := True, requests := requests s @ calls, isCreating := False\<rparr>)"
      using b l by (auto simp: findOrCreateTag_def Let_def)
    show ?thesis
      unfolding e using f g by (cases r) auto
  qed
qed

lemmas resolve_defs = findOrCreateTag_def lookup_or_create_def sample_platform_def
  ascii_def trim_def is_space_def ascii_lower_def unreserved_def exact_url_def create_body_def
  existing_of_def results_of_def opt_prop_def nullish_def created_of_def prop_of_def Let_def

text \<open>C6 as stated fails: the Directory answers the search for \<open>go\<close> with a record
  whose name is the number 5, which is committed unconverted; the next call then
  rejects with a TypeError, thrown by \<open>t.name.toLowerCase()\<close> before the \<open>try\<close>.\<close>

theorem findOrCreateTag_rejects_after_unnamed_record:
  "fst (findOrCreateTag sample_platform misnaming (ascii ''go'') ready)
     = Inr (Some \<lparr> documentId = JStr (ascii ''7''), name = JNum 5 \<rparr>)
   \<and> fst (addTag_name sample_platform misnaming (ascii ''go'') ready) = None
   \<and> tags (snd (addTag_name sample_platform misnaming (ascii ''go'') ready))
       = [\<lparr> documentId = JStr (ascii ''7''), name = JNum 5 \<rparr>]
   \<and> \<not> names_are_strings (tags (snd (addTag_name sample_platform misnaming (ascii ''go'') ready)))
   \<and> fst (findOrCreateTag sample_platform misnaming (ascii ''x'')
              (snd (addTag_name sample_platform misnaming (ascii ''go'') ready)))
       = Inl TypeError"
proof -
  have a: "findOrCreateTag sample_platform misnaming (ascii ''go'') ready
      = (Inr (Some \<lparr> documentId = JStr (ascii ''7''), name = JNum 5 \<rparr>),
         ready\<lparr>requests := [Get (exact_url (tagApiPath ready) (ascii ''go''))]\<rparr>)"
    by (simp add: resolve_defs misnaming_def state_defs)
  have b: "tags (snd (addTag_name sample_platform misnaming (ascii ''go'') ready))
       = [\<lparr> documentId = JStr (ascii ''7''), name = JNum 5 \<rparr>]"
    and c: "tagApiPath (snd (addTag_name sample_platform misnaming (ascii ''go'') ready)) \<noteq> []"
    and d: "fst (addTag_name sample_platform misnaming (ascii ''go'') ready) = None"
    unfolding addTag_name_def a
    by (simp_all add: clear_draft_def updateValue_def state_defs ascii_def)
  have e: "trim (ascii ''x'') \<noteq> []"
    by (simp add: trim_def ascii_def is_space_def)
  have f: "fst (findOrCreateTag sample_platform misnaming (ascii ''x'')
              (snd (addTag_name sample_platform misnaming (ascii ''go'') ready))) = Inl TypeError"
    using b c e by (simp add: findOrCreateTag_def Let_def)
  show ?thesis
    using a b d f by (simp add: names_are_strings_def is_string_def)
qed

theorem findOrCreateTag_never_throws_witness:
  "names_are_strings (tags one_tag)
   \<and> \<not> isCreating one_tag
   \<and> directory_failure sample_platform offline (tagApiPath one_tag) (trim (ascii ''rust''))
   \<and> fst (findOrCreateTag sample_platform offline (ascii ''rust'') one_tag) = Inr None
   \<and> \<not> isCreating (snd (findOrCreateTag sample_platform offline (ascii ''rust'') one_tag))
   \<and> \<not> directory_failure sample_platform creating (tagApiPath one_tag) (trim (ascii ''rust''))
   \<and> \<not> name_present sample_platform (ascii ''rust'') (tags one_tag)
   \<and> fst (findOrCreateTag sample_platform creating (ascii ''rust'') one_tag) = Inr (Some (tag ''7'' ''rust''))
   \<and> \<not> isCreating (snd (findOrCreateTag sample_platform creating (ascii ''rust'') one_tag))"
proof -
  have a: "names_are_strings (tags one_tag)"
    by (simp add: names_are_strings_def state_defs is_string_def)
  have c: "\<not> isCreating one_tag"
    by (simp add: state_defs)
  have d: "directory_failure sample_platform offline (tagApiPath one_tag) (trim (ascii ''rust''))"
    by (simp add: directory_failure_def offline_def trim_def ascii_def is_space_def unreserved_def)
  have e: "\<not> directory_failure sample_platform creating (tagApiPath one_tag) (trim (ascii ''rust''))"
    by (simp add: directory_failure_def creating_def trim_def ascii_def is_space_def unreserved_def
        existing_of_def results_of_def opt_prop_def nullish_def identifier_of_def prop_of_def)
  have n: "\<not> name_present sample_platform (ascii ''rust'') (tags one_tag)"
    by (simp add: name_present_def state_defs sample_platform_def trim_def ascii_def is_space_def
        ascii_lower_def)
  show ?thesis
    using a c d e n sample_resolution
      findOrCreateTag_never_throws [OF a, of sample_platform offline "ascii ''rust''"]
      findOrCreateTag_never_throws [OF a, of sample_platform creating "ascii ''rust''"]
    by simp
qed

section \<open>Notifications of the Field Host\<close>







section \<open>The debounce\<close>

lemma advance_none_due: "none_due now s \<Longrightarrow> advance now s = s"
  by (auto simp: none_due_def advance_def split: option.splits)

lemma type_burst_pending:
  assumes "rapid (e # es)" and "none_due (fst e) s"
  shows "search_calls (type_burst (e # es) s) = search_calls s
    \<and> requests (type_burst (e # es) s) = requests s
    \<and> (\<exists>t. debounce (type_burst (e # es) s) = Some t
          \<and> due t = fst (last (e # es)) + 250 \<and> timer_query t = trim (snd (last (e # es))))"
  using assms
proof (induction es arbitrary: e s)
  case Nil
  then show ?case
    by (simp add: advance_none_due handleInputChange_def)
next
  case (Cons f es)
  let ?s1 = "handleInputChange (fst e) (snd e) (advance (fst e) s)"
  have s1: "?s1 = handleInputChange (fst e) (snd e) s"
    using Cons.prems(2) by (simp add: advance_none_due)
  have n: "none_due (fst f) ?s1"
    unfolding s1 using Cons.prems(1) by (simp add: none_due_def handleInputChange_def)
  have r: "rapid (f # es)" using Cons.prems(1) by simp
  have c: "search_calls ?s1 = search_calls s" "requests ?s1 = requests s"
    unfolding s1 by (simp_all add: handleInputChange_def)
  show ?case
    using Cons.IH [OF r n] c by simp
qed

text \<open>
  C8. A sequence of changes of the draft, each less than 250 ms after the one before
  (the first before any pending timer is due), starts no search while it lasts; once 250
  ms have passed after the last change, exactly one call of \<open>searchTags\<close> has been
  made, with the trimmed final text, and at most one request has gone to the Directory.
\<close>

theorem debounce_collapses:
  assumes "es \<noteq> []" and "rapid es" and "none_due (fst (hd es)) s" and "fst (last es) \<le> T"
  shows "search_calls (advance T (type_burst es s)) =
           search_calls s @ (if fst (last es) + 250 \<le> T then [trim (snd (last es))] else [])
    \<and> length (requests (advance T (type_burst es s))) \<le> length (requests s) + 1"
proof -
  obtain e es' where es: "es = e # es'" using assms(1) by (cases es) auto
  obtain t where c: "search_calls (type_burst es s) = search_calls s"
    and q: "requests (type_burst es s) = requests s"
    and d: "debounce (type_burst es s) = Some t"
    and t: "due t = fst (last es) + 250" "timer_query t = trim (snd (last es))"
    using type_burst_pending [of e es' s] assms(2,3) es by auto
  show ?thesis
    using c q d t by (simp add: advance_def searchTags_issue_def Let_def split: option.splits)
qed

theorem debounce_collapses_witness:
  "rapid [(0, ascii ''r''), (100, ascii ''ru''), (300, ascii ''rus''), (500, ascii ''rust '')]
   \<and> none_due 0 ready
   \<and> search_calls (advance 700 (type_burst
        [(0, ascii ''r''), (100, ascii ''ru''), (300, ascii ''rus''), (500, ascii ''rust '')] ready)) = []
   \<and> search_calls (advance 750 (type_burst
        [(0, ascii ''r''), (100, ascii ''ru''), (300, ascii ''rus''), (500, ascii ''rust '')] ready))
       = [ascii ''rust'']"
proof -
  let ?es = "[(0::nat, ascii ''r''), (100, ascii ''ru''), (300, ascii ''rus''), (500, ascii ''rust '')]"
  have a: "?es \<noteq> []" and b: "rapid ?es" by simp_all
  have c: "none_due (fst (hd ?es)) ready"
    by (simp add: none_due_def ready_def mount_def config_loaded_def)
  have d: "search_calls ready = []"
    by (simp add: ready_def mount_def config_loaded_def)
  have e: "trim (ascii ''rust '') = ascii ''rust''"
    by (simp add: trim_def ascii_def is_space_def)
  show ?thesis
    using b c d e debounce_collapses [OF a b c, of 700] debounce_collapses [OF a b c, of 750]
    by simp
qed

section \<open>Responses out of order\<close>








section \<open>The shape of what parseTagValue returns\<close>

lemma parseTagValue_entries:
  "parseTagValue P v = mapE toTag (filter keeps (entries_of P v))"
  by (auto simp: parseTagValue_def entries_of_def split: option.splits jsval.splits)

lemma undecodable_entries: "undecodable P v \<Longrightarrow> entries_of P v = []"
  by (auto simp: undecodable_def entries_of_def split: option.splits jsval.splits)

lemma mapE_Inr: "mapE f xs = Inr ys \<Longrightarrow> list_all2 (\<lambda>x y. f x = Inr y) xs ys"
  by (induction xs arbitrary: ys) (auto split: sum.splits)

lemma mapE_total:
  "list_all (\<lambda>x. \<exists>y. f x = Inr y) xs \<Longrightarrow> \<exists>ys. mapE f xs = Inr ys"
  by (induction xs) (auto split: sum.splits)

lemma mapE_Inl: "mapE f xs = Inl e \<Longrightarrow> list_ex (\<lambda>x. f x = Inl e) xs"
  by (induction xs) (auto split: sum.splits)

lemma toTag_entry: "toTag e = Inr t \<Longrightarrow> tag_of_entry e t"
  by (auto simp: toTag_def tag_of_entry_def is_string_def Let_def split: sum.splits)

lemma toTag_string:
  "is_string (prop_of e (ascii ''name'')) \<Longrightarrow>
   toTag e = Inr \<lparr> documentId = (if truthy (prop_of e (ascii ''documentId''))
                                  then prop_of e (ascii ''documentId'') else JStr []),
                   name = prop_of e (ascii ''name'') \<rparr>"
  by (cases "prop_of e (ascii ''name'')") (auto simp: toTag_def is_string_def Let_def)

lemma ToString_throws: "ToString v = Inl e \<Longrightarrow> e = TypeError"
  and join_elems_throws: "join_elems vs = Inl e \<Longrightarrow> e = TypeError"
  by (induction v and vs rule: ToString_join_elems.induct) (auto split: if_splits sum.splits)

lemma list_all2_right:
  "list_all2 R xs ys \<Longrightarrow> (\<And>x y. x \<in> set xs \<Longrightarrow> R x y \<Longrightarrow> Q y) \<Longrightarrow> list_all Q ys"
  by (induction rule: list_all2_induct) auto

lemma toTag_throws: "toTag e = Inl x \<Longrightarrow> ToString (prop_of e (ascii ''name'')) = Inl TypeError \<and> x = TypeError"
  using ToString_throws by (auto simp: toTag_def split: sum.splits)

text \<open>
  C10, amended. For every input value, \<open>parseTagValue\<close> drops the array entries that
  are not objects or whose name is missing, empty or otherwise falsy, and returns for
  the others, in order, the name as \<open>String(name)\<close> and the \<open>documentId\<close> as it is
  when truthy, of whatever type, and \<open>''\<close> otherwise. When the names of the kept entries
  are strings the call does not throw and every name of the result is a non-empty
  string; when their \<open>documentId\<close>s are strings or falsy, every \<open>documentId\<close> of the
  result is a string. The call throws only a TypeError, and only when \<open>String\<close> of a
  kept name throws.
\<close>

theorem parseTagValue_shape:
  "(parseTagValue P v = Inr ts \<longrightarrow> list_all2 tag_of_entry (filter keeps (entries_of P v)) ts)
   \<and> (list_all (\<lambda>e. is_string (prop_of e (ascii ''name''))) (filter keeps (entries_of P v))
      \<longrightarrow> (\<exists>us. parseTagValue P v = Inr us
            \<and> list_all (\<lambda>t. is_string (name t) \<and> name t \<noteq> JStr []) us))
   \<and> (parseTagValue P v = Inr ts
       \<and> list_all (\<lambda>e. is_string (prop_of e (ascii ''documentId''))
                       \<or> \<not> truthy (prop_of e (ascii ''documentId'')))
            (filter keeps (entries_of P v))
      \<longrightarrow> list_all (\<lambda>t. is_string (documentId t)) ts)
   \<and> (parseTagValue P v = Inl x
      \<longrightarrow> x = TypeError
        \<and> list_ex (\<lambda>e. ToString (prop_of e (ascii ''name'')) = Inl TypeError)
             (filter keeps (entries_of P v)))"
proof -
  let ?kept = "filter keeps (entries_of P v)"
  have p: "parseTagValue P v = mapE toTag ?kept" by (rule parseTagValue_entries)
  have 1: "list_all2 tag_of_entry ?kept ts" if "parseTagValue P v = Inr ts"
    using mapE_Inr [of toTag ?kept ts] that p toTag_entry
    by (auto elim!: list_all2_mono)
  have 2: "\<exists>us. parseTagValue P v = Inr us \<and> list_all (\<lambda>t. is_string (name t) \<and> name t \<noteq> JStr []) us"
    if a: "list_all (\<lambda>e. is_string (prop_of e (ascii ''name''))) ?kept"
  proof -
    have "list_all (\<lambda>e. \<exists>t. toTag e = Inr t) ?kept"
      using a toTag_string by (auto simp: list_all_iff)
    then obtain us where us: "mapE toTag ?kept = Inr us"
      using mapE_total [of toTag ?kept] by blast
    have "list_all (\<lambda>t. is_string (name t) \<and> name t \<noteq> JStr []) us"
    proof (rule list_all2_right [OF mapE_Inr [OF us]])
      fix e t assume e: "e \<in> set ?kept" and t: "toTag e = Inr t"
      have s: "is_string (prop_of e (ascii ''name''))"
        using a e by (auto simp: list_all_iff)
      have k: "truthy (prop_of e (ascii ''name''))"
        using e by (simp add: keeps_def)
      have "name t = prop_of e (ascii ''name'')"
        using toTag_string [OF s] t by auto
      then show "is_string (name t) \<and> name t \<noteq> JStr []"
        using s k by auto
    qed
    then show ?thesis using us p by simp
  qed
  have 3: "list_all (\<lambda>t. is_string (documentId t)) ts"
    if r: "parseTagValue P v = Inr ts"
      and a: "list_all (\<lambda>e. is_string (prop_of e (ascii ''documentId''))
                       \<or> \<not> truthy (prop_of e (ascii ''documentId''))) ?kept"
  proof (rule list_all2_right [OF 1 [OF r]])
    fix e t assume e: "e \<in> set ?kept" and t: "tag_of_entry e t"
    have "is_string (prop_of e (ascii ''documentId'')) \<or> \<not> truthy (prop_of e (ascii ''documentId''))"
      using a e by (auto simp: list_all_iff)
    then show "is_string (documentId t)"
      using t by (auto simp: tag_of_entry_def is_string_def)
  qed
  have 4: "x = TypeError \<and> list_ex (\<lambda>e. ToString (prop_of e (ascii ''name'')) = Inl TypeError) ?kept"
    if "parseTagValue P v = Inl x"
  proof -
    have l: "list_ex (\<lambda>e. toTag e = Inl x) ?kept"
      using mapE_Inl [of toTag ?kept x] that p by simp
    then obtain e where "e \<in> set ?kept" and "toTag e = Inl x"
      by (auto simp: list_ex_iff)
    then show ?thesis
      using toTag_throws [of e x] by (auto simp: list_ex_iff)
  qed
  show ?thesis using 1 2 3 4 by blast
qed

text \<open>C10 as stated fails: a numeric \<open>documentId\<close> is returned as a number, the name
  \<open>[]\<close> is returned as the empty string, and a name with an own \<open>toString\<close> property
  makes the call throw.\<close>

theorem parseTagValue_untyped_results:
  "parseTagValue sample_platform untyped_entries
     = Inr [\<lparr> documentId = JNum 5, name = JStr (ascii ''a'') \<rparr>,
            \<lparr> documentId = JStr [], name = JStr [] \<rparr>]
   \<and> \<not> is_string (JNum 5)
   \<and> parseTagValue sample_platform unprintable_entry = Inl TypeError"
  by (simp add: parse_defs is_string_def)

theorem parseTagValue_shape_witness:
  "list_all (\<lambda>e. is_string (prop_of e (ascii ''name''))) (filter keeps (entries_of sample_platform mixed_entries))
   \<and> list_all (\<lambda>e. is_string (prop_of e (ascii ''documentId''))
                       \<or> \<not> truthy (prop_of e (ascii ''documentId'')))
            (filter keeps (entries_of sample_platform mixed_entries))
   \<and> parseTagValue sample_platform mixed_entries = Inr [tag ''1'' ''Go'', tag [] ''Rust'']
   \<and> list_all (\<lambda>t. is_string (documentId t)) [tag ''1'' ''Go'', tag [] ''Rust'']
   \<and> list_all2 tag_of_entry (filter keeps (entries_of sample_platform mixed_entries))
        [tag ''1'' ''Go'', tag [] ''Rust'']
   \<and> parseTagValue sample_platform unprintable_entry = Inl TypeError
   \<and> list_ex (\<lambda>e. ToString (prop_of e (ascii ''name'')) = Inl TypeError)
        (filter keeps (entries_of sample_platform unprintable_entry))"
proof -
  have r: "parseTagValue sample_platform mixed_entries = Inr [tag ''1'' ''Go'', tag [] ''Rust'']"
    by (simp add: parse_defs)
  have a: "list_all (\<lambda>e. is_string (prop_of e (ascii ''name''))) (filter keeps (entries_of sample_platform mixed_entries))"
    by (simp add: entries_of_def parse_defs is_string_def)
  have b: "list_all (\<lambda>e. is_string (prop_of e (ascii ''documentId''))
                       \<or> \<not> truthy (prop_of e (ascii ''documentId'')))
            (filter keeps (entries_of sample_platform mixed_entries))"
    by (simp add: entries_of_def parse_defs is_string_def)
  have x: "parseTagValue sample_platform unprintable_entry = Inl TypeError"
    by (simp add: parse_defs)
  show ?thesis
    using r a b x
      parseTagValue_shape [of sample_platform mixed_entries "[tag ''1'' ''Go'', tag [] ''Rust'']" TypeError]
      parseTagValue_shape [of sample_platform unprintable_entry "[]" TypeError]
    by simp
qed

section \<open>The effect on value\<close>

text \<open>
  C3, amended. For every value, the effect is a no-op when the user has edited; otherwise,
  when the value decodes to a non-empty list, the committed set becomes that list, and
  when the value is empty, does not parse or is not an array (or decodes to no tag)
  nothing is thrown and the committed set is left as it was, which at mount is empty.
\<close>

theorem initialize_decodes:
  "(hasUserEdited s \<longrightarrow> initialize P v s = Inr s)
   \<and> (\<not> hasUserEdited s \<and> parseTagValue P v = Inr ts \<and> ts \<noteq> []
        \<longrightarrow> initialize P v s = Inr (s\<lparr>tags := ts\<rparr>))
   \<and> (\<not> hasUserEdited s \<and> parseTagValue P v = Inr [] \<longrightarrow> initialize P v s = Inr s)
   \<and> (undecodable P v \<longrightarrow> parseTagValue P v = Inr [] \<and> initialize P v s = Inr s
        \<and> (\<exists>s'. initialize P v (mount field) = Inr s' \<and> tags s' = []))"
proof -
  have u: "parseTagValue P v = Inr []" if "undecodable P v"
    using undecodable_entries [OF that] by (simp add: parseTagValue_entries)
  show ?thesis
    using u by (auto simp: initialize_def mount_def)
qed

text \<open>C3 as stated fails: with a tag committed and no edit yet, an empty or unparseable
  value leaves the committed set as it is, not empty; and a name with an own
  \<open>toString\<close> property makes the effect throw.\<close>

theorem initialize_keeps_committed:
  "initialize sample_platform (JArr [tag_obj (tag ''1'' ''Go'')]) ready = Inr one_tag
   \<and> \<not> hasUserEdited one_tag
   \<and> tags one_tag = [tag ''1'' ''Go'']
   \<and> initialize sample_platform JNull one_tag = Inr one_tag
   \<and> initialize sample_platform (JStr []) one_tag = Inr one_tag
   \<and> ref_parse (ascii ''oops'') = None
   \<and> initialize sample_platform (JStr (ascii ''oops'')) one_tag = Inr one_tag
   \<and> initialize sample_platform unprintable_entry one_tag = Inl TypeError"
proof -
  have p: "ref_parse (ascii ''oops'') = None"
    by (simp add: json_defs)
  show ?thesis
    using p by (simp add: initialize_def parse_defs state_defs sample_platform_def tag_obj_def)
qed

theorem initialize_decodes_witness:
  "hasUserEdited (removeTag (JStr (ascii ''9'')) one_tag)
   \<and> initialize sample_platform mixed_entries (removeTag (JStr (ascii ''9'')) one_tag)
       = Inr (removeTag (JStr (ascii ''9'')) one_tag)
   \<and> \<not> hasUserEdited one_tag
   \<and> initialize sample_platform mixed_entries one_tag
       = Inr (one_tag\<lparr>tags := [tag ''1'' ''Go'', tag [] ''Rust'']\<rparr>)
   \<and> undecodable sample_platform (JNum 3)
   \<and> initialize sample_platform (JNum 3) one_tag = Inr one_tag
   \<and> initialize sample_platform (JNum 3) (mount (ascii ''tagInput'')) = Inr (mount (ascii ''tagInput''))"
proof -
  have e: "hasUserEdited (removeTag (JStr (ascii ''9'')) one_tag)" and n: "\<not> hasUserEdited one_tag"
    by (simp_all add: state_defs removeTag_def updateValue_def)
  have r: "parseTagValue sample_platform mixed_entries = Inr [tag ''1'' ''Go'', tag [] ''Rust'']"
    by (simp add: parse_defs)
  have u: "undecodable sample_platform (JNum 3)"
    by (simp add: undecodable_def)
  have m: "\<not> hasUserEdited (mount (ascii ''tagInput''))"
    by (simp add: mount_def)
  show ?thesis
    using e n r u m
      initialize_decodes [of "removeTag (JStr (ascii ''9'')) one_tag" sample_platform mixed_entries "[]" "[]"]
      initialize_decodes [of one_tag sample_platform mixed_entries "[tag ''1'' ''Go'', tag [] ''Rust'']" "[]"]
      initialize_decodes [of one_tag sample_platform "JNum 3" "[]" "[]"]
      initialize_decodes [of "mount (ascii ''tagInput'')" sample_platform "JNum 3" "[]" "[]"]
    by simp
qed

section \<open>The reference parser reads what JSON.stringify writes\<close>

lemma hexval_hexdigit: "d < 16 \<Longrightarrow> hexval (hexdigit d) = Some d"
  by (auto simp: hexval_def hexdigit_def)

lemma hex_digits_sum:
  fixes c :: nat
  assumes "c < 65536"
  shows "c div 4096 mod 16 * 4096 + c div 256 mod 16 * 256 + c div 16 mod 16 * 16 + c mod 16 = c"
proof -
  define x1 where "x1 = c div 16"
  define x2 where "x2 = x1 div 16"
  define x3 where "x3 = x2 div 16"
  have a: "c div 256 = x2" "c div 4096 = x3"
    by (simp_all add: x1_def x2_def x3_def div_mult2_eq)
  have b: "c = x1 * 16 + c mod 16" "x1 = x2 * 16 + x1 mod 16" "x2 = x3 * 16 + x2 mod 16"
    by (simp_all add: x1_def x2_def x3_def)
  have "x3 < 16" using assms a(2) by simp
  then have c: "x3 mod 16 = x3" by simp
  show ?thesis
    unfolding a c x1_def [symmetric] using b by linarith
qed

lemma hex4_value_hex4:
  assumes "c < 65536"
  shows "hex4_value (hex4 c @ r) = Some c"
proof -
  have l: "c div 4096 mod 16 = c div 4096" using assms by simp
  have "c div 4096 < 16" using assms by simp
  then have h: "hexval (hexdigit (c div 4096)) = Some (c div 4096)" by (rule hexval_hexdigit)
  show ?thesis
    using hex_digits_sum [OF assms] l h
    by (simp add: hex4_value_def hex4_def hexval_hexdigit)
qed

lemma read_chars_escape:
  "read_chars (escape c @ r) =
     (case read_chars r of None \<Rightarrow> None | Some (s, r') \<Rightarrow> Some (c # s, r'))"
proof -
  consider "c = 8" | "c = 9" | "c = 10" | "c = 12" | "c = 13" | "c = 34" | "c = 92"
    | "c \<notin> {8, 9, 10, 12, 13, 34, 92}" "c < 32 \<or> (55296 \<le> c \<and> c \<le> 57343)"
    | "c \<notin> {8, 9, 10, 12, 13, 34, 92}" "\<not> (c < 32 \<or> (55296 \<le> c \<and> c \<le> 57343))"
    by auto
  then show ?thesis
  proof cases
    case 8
    then have "c < 65536" by auto
    then have h: "hex4_value (hex4 c @ r) = Some c" by (rule hex4_value_hex4)
    have d: "drop 4 (hex4 c @ r) = r" by (simp add: hex4_def)
    have e: "escape c = [92, 117] @ hex4 c"
      using 8 by (auto simp: escape_def)
    show ?thesis
      unfolding e using h d by (simp add: read_chars.simps)
  next
    case 9
    then have e: "escape c = [c]" and n: "c \<noteq> 34" "\<not> c < 32" "c \<noteq> 92"
      by (auto simp: escape_def)
    show ?thesis
      unfolding e using n by (simp add: read_chars.simps)
  qed (auto simp: escape_def read_chars.simps unescape_def split: option.splits)
qed

lemma read_chars_quote:
  "read_chars (concat (map escape s) @ 34 # r) = Some (s, r)"
  by (induction s) (simp_all add: read_chars_escape read_chars.simps)

lemma read_string_quote:
  "join_surrogates s = s \<Longrightarrow> read_string (concat (map escape s) @ 34 # r) = Some (s, r)"
  by (simp add: read_string_def read_chars_quote)

lemma read_value_string:
  "join_surrogates s = s \<Longrightarrow>
   read_value (Suc f) (34 # concat (map escape s) @ 34 # r) = Some (JStr s, r)"
  by (simp add: skip_ws_def read_string_quote)

lemma read_member_last:
  assumes "join_surrogates k = k" and "join_surrogates x = x"
  shows "read_members (Suc (Suc f)) acc (quote k @ 58 # quote x @ 125 # r)
         = Some (define_prop k (JStr x) acc, r)"
  apply (subst read_members.simps)
  using assms
  apply (simp add: quote_def skip_ws_def read_string_quote read_value_string
      del: read_value.simps read_members.simps)
  done

lemma read_member_more:
  assumes "join_surrogates k = k" and "join_surrogates x = x"
  shows "read_members (Suc (Suc f)) acc (quote k @ 58 # quote x @ 44 # r)
         = read_members (Suc f) (define_prop k (JStr x) acc) r"
  apply (subst read_members.simps)
  using assms
  apply (simp add: quote_def skip_ws_def read_string_quote read_value_string
      del: read_value.simps read_members.simps)
  done

lemma key_strings:
  "join_surrogates (ascii ''documentId'') = ascii ''documentId''"
  "join_surrogates (ascii ''name'') = ascii ''name''"
  "ascii ''documentId'' \<noteq> ascii ''name''"
  by (simp_all add: ascii_def)

lemma read_members_tag:
  assumes "join_surrogates d = d" and "join_surrogates n = n"
  shows "read_members (Suc (Suc (Suc f))) []
           (quote (ascii ''documentId'') @ 58 # quote d @ 44 # quote (ascii ''name'') @ 58 # quote n @ 125 # r)
         = Some ([(ascii ''documentId'', JStr d), (ascii ''name'', JStr n)], r)"
  using key_strings(3)
  by (simp add: read_member_more [OF key_strings(1) assms(1)]
      read_member_last [OF key_strings(2) assms(2)] del: read_members.simps)

lemma ser_tag_obj:
  assumes "documentId t = JStr d" and "name t = JStr n"
  shows "ser_elems (map tag_obj (t # ts)) =
           (123 # quote (ascii ''documentId'') @ 58 # quote d @ 44 # quote (ascii ''name'') @ 58 # quote n @ [125])
           # ser_elems (map tag_obj ts)"
  using assms by (simp add: tag_obj_def)

lemma read_value_tag:
  assumes "canonical t"
  shows "\<exists>x. ser_elems (map tag_obj (t # ts)) = x # ser_elems (map tag_obj ts)
           \<and> take 1 x = [123] \<and> (\<forall>f r. read_value (Suc (Suc (Suc (Suc f)))) (x @ r) = Some (tag_obj t, r))"
proof -
  obtain d n where t: "documentId t = JStr d" "name t = JStr n"
    and w: "join_surrogates d = d" "join_surrogates n = n"
    using assms by (auto simp: canonical_def split: jsval.splits)
  let ?x = "123 # quote (ascii ''documentId'') @ 58 # quote d @ 44 # quote (ascii ''name'') @ 58 # quote n @ [125]"
  have q: "take 1 (skip_ws (quote (ascii ''documentId'') @ y)) \<noteq> [125]" for y
    by (simp add: quote_def skip_ws_def)
  have "read_value (Suc (Suc (Suc (Suc f)))) (?x @ r) = Some (tag_obj t, r)" for f r
    apply (subst read_value.simps)
    using read_members_tag [OF w, of f r] q t
    apply (simp add: skip_ws_def tag_obj_def del: read_members.simps read_value.simps)
    done
  moreover have "take 1 ?x = [123]" by simp
  ultimately show ?thesis
    using ser_tag_obj [OF t] by blast
qed

lemma read_elems_tags:
  assumes "list_all canonical (t # ts)"
  shows "read_elems (Suc (Suc (Suc (Suc (Suc (length ts + f))))))
           (commas (ser_elems (map tag_obj (t # ts))) @ 93 # r) = Some (map tag_obj (t # ts), r)"
  using assms
proof (induction ts arbitrary: t)
  case Nil
  then have "canonical t" by simp
  then obtain x where x: "ser_elems (map tag_obj [t]) = [x]"
    and v: "\<And>g q. read_value (Suc (Suc (Suc (Suc g)))) (x @ q) = Some (tag_obj t, q)"
    using read_value_tag [of t "[]"] by auto
  have c: "commas (ser_elems (map tag_obj [t])) @ 93 # r = x @ 93 # r"
    unfolding x by simp
  show ?case
    unfolding c
    apply (subst read_elems.simps)
    apply (simp add: v skip_ws_def del: read_value.simps read_elems.simps)
    done
next
  case (Cons u us)
  then have "canonical t" and l: "list_all canonical (u # us)" by simp_all
  then obtain x where x: "ser_elems (map tag_obj (t # u # us)) = x # ser_elems (map tag_obj (u # us))"
    and v: "\<And>g q. read_value (Suc (Suc (Suc (Suc g)))) (x @ q) = Some (tag_obj t, q)"
    using read_value_tag [of t "u # us"] by auto
  define rest where "rest = commas (ser_elems (map tag_obj (u # us))) @ 93 # r"
  obtain y ys where y: "ser_elems (map tag_obj (u # us)) = y # ys"
    by (cases "ser_elems (map tag_obj (u # us))") auto
  have c: "commas (ser_elems (map tag_obj (t # u # us))) @ 93 # r = x @ 44 # rest"
    unfolding x y rest_def by simp
  have i: "read_elems (Suc (Suc (Suc (Suc (Suc (length us + f)))))) rest = Some (map tag_obj (u # us), r)"
    unfolding rest_def by (rule Cons.IH [OF l])
  have f: "Suc (Suc (Suc (Suc (Suc (length (u # us) + f)))))
           = Suc (Suc (Suc (Suc (Suc (Suc (length us + f))))))" by simp
  show ?case
    unfolding c f
    apply (subst read_elems.simps)
    apply (simp add: v skip_ws_def i del: read_value.simps read_elems.simps)
    done
qed

lemma length_ser_elems: "length (ser_elems xs) = length xs"
  by (induction xs) auto

lemma length_commas: "list_all (\<lambda>x. x \<noteq> []) xs \<Longrightarrow> length xs \<le> length (commas xs)"
  by (induction xs rule: commas.induct) (auto simp: Suc_le_eq)

lemma ser_elems_nonempty:
  "list_all canonical S \<Longrightarrow> list_all (\<lambda>x. x \<noteq> []) (ser_elems (map tag_obj S))"
proof (induction S)
  case Nil
  then show ?case by simp
next
  case (Cons t S)
  then obtain x where "ser_elems (map tag_obj (t # S)) = x # ser_elems (map tag_obj S)" and "take 1 x = [123]"
    using read_value_tag [of t S] by auto
  then show ?case using Cons by auto
qed

lemma ref_parse_stringify:
  assumes "list_all canonical S"
  shows "ref_parse (JSON_stringify S) = Some (JArr (map tag_obj S))"
proof (cases S)
  case Nil
  then show ?thesis
    by (simp add: ref_parse_def JSON_stringify_def skip_ws_def fuel)
next
  case (Cons t ts)
  let ?body = "commas (ser_elems (map tag_obj (t # ts)))"
  obtain x where x: "ser_elems (map tag_obj (t # ts)) = x # ser_elems (map tag_obj ts)"
    and h: "take 1 x = [123]"
    using read_value_tag [of t ts] assms Cons by auto
  obtain y where y: "x = 123 # y" using h by (cases x) auto
  obtain z where b: "?body = 123 # z"
    unfolding x y by (cases "ser_elems (map tag_obj ts)") auto
  have "length (t # ts) \<le> length ?body"
    using length_commas [OF ser_elems_nonempty [OF assms]] length_ser_elems [of "map tag_obj S"] Cons
    by (simp del: ser.simps map_eq_conv list.map)
  then have "length ts + 5 \<le> 2 * length (91 # ?body @ [93])" by simp
  then have "2 * length (91 # ?body @ [93])
      = Suc (Suc (Suc (Suc (Suc (length ts + (2 * length (91 # ?body @ [93]) - (length ts + 5)))))))"
    by linarith
  then obtain g where g: "2 * length (91 # ?body @ [93]) = Suc (Suc (Suc (Suc (Suc (length ts + g)))))"
    by blast
  have e: "read_elems (2 * length (91 # ?body @ [93])) (?body @ [93]) = Some (map tag_obj (t # ts), [])"
    unfolding g using read_elems_tags [of t ts g "[]"] assms Cons by simp
  have n: "take 1 (skip_ws (?body @ [93])) \<noteq> [93]"
    unfolding b by (simp add: skip_ws_def)
  show ?thesis
    unfolding Cons ref_parse_def JSON_stringify_def
    apply (subst read_value.simps)
    using e n
    apply (simp add: skip_ws_def del: read_value.simps read_elems.simps)
    done
qed


section \<open>Encoding and decoding\<close>

lemma keeps_tag_obj: "typed t \<Longrightarrow> keeps (tag_obj t) = (name t \<noteq> JStr [])"
  by (cases "name t") (auto simp: keeps_def tag_obj_def prop_of_def typed_def is_string_def ascii_def)

lemma toTag_tag_obj: "typed t \<Longrightarrow> toTag (tag_obj t) = Inr t"
  by (cases "name t"; cases "documentId t")
     (auto simp: toTag_def tag_obj_def prop_of_def typed_def is_string_def ascii_def Let_def)

lemma mapE_toTag_typed: "list_all typed S \<Longrightarrow> mapE toTag (map tag_obj S) = Inr S"
  by (induction S) (auto simp: toTag_tag_obj)

lemma filter_keeps_typed:
  "list_all typed S \<Longrightarrow> filter keeps (map tag_obj S) = map tag_obj (filter (\<lambda>t. name t \<noteq> JStr []) S)"
  by (induction S) (auto simp: keeps_tag_obj)

lemma decode_encode_on:
  assumes "JSON_parse P (JSON_stringify S) = Some (JArr (map tag_obj S))" and "list_all typed S"
  shows "parseTagValue P (JStr (JSON_stringify S)) = Inr (filter (\<lambda>t. name t \<noteq> JStr []) S)"
proof -
  have t: "list_all typed (filter (\<lambda>t. name t \<noteq> JStr []) S)"
    using assms(2) by (simp add: list_all_iff)
  have "parseTagValue P (JStr (JSON_stringify S)) = mapE toTag (filter keeps (map tag_obj S))"
    using assms(1) by (simp add: parseTagValue_def JSON_stringify_def)
  then show ?thesis
    using filter_keeps_typed [OF assms(2)] mapE_toTag_typed [OF t] by simp
qed

lemma canonical_typed: "canonical t \<Longrightarrow> typed t"
  by (auto simp: canonical_def typed_def is_string_def split: jsval.splits)

text \<open>
  C1, amended. A committed set of tags whose fields are strings decodes, after encoding,
  to the same tags in the same order without those whose name is the empty string, and
  so to itself when no name is empty: on every platform whose \<open>JSON.parse\<close> gives back
  the array that \<open>JSON.stringify\<close> wrote, and with the reference \<open>JSON.parse\<close> for
  every such set.
\<close>

theorem decode_encode:
  "(list_all typed S \<and> JSON_parse P (JSON_stringify S) = Some (JArr (map tag_obj S))
      \<longrightarrow> parseTagValue P (JStr (JSON_stringify S)) = Inr (filter (\<lambda>t. name t \<noteq> JStr []) S)
        \<and> (list_all (\<lambda>t. name t \<noteq> JStr []) S
             \<longrightarrow> parseTagValue P (JStr (JSON_stringify S)) = Inr S))
   \<and> (list_all canonical S
      \<longrightarrow> parseTagValue sample_platform (JStr (JSON_stringify S))
            = Inr (filter (\<lambda>t. name t \<noteq> JStr []) S)
        \<and> (list_all (\<lambda>t. name t \<noteq> JStr []) S
             \<longrightarrow> parseTagValue sample_platform (JStr (JSON_stringify S)) = Inr S))"
proof -
  have i: "list_all (\<lambda>t. name t \<noteq> JStr []) S \<Longrightarrow> filter (\<lambda>t. name t \<noteq> JStr []) S = S"
    by (simp add: list_all_iff filter_id_conv)
  have c: "parseTagValue sample_platform (JStr (JSON_stringify S))
            = Inr (filter (\<lambda>t. name t \<noteq> JStr []) S)" if "list_all canonical S"
  proof (rule decode_encode_on)
    show "JSON_parse sample_platform (JSON_stringify S) = Some (JArr (map tag_obj S))"
      using ref_parse_stringify [OF that] by (simp add: sample_platform_def)
    show "list_all typed S"
      using that canonical_typed by (auto simp: list_all_iff)
  qed
  show ?thesis
    using decode_encode_on [of P S] c i by auto
qed

text \<open>C1 as stated fails: the set with one tag of empty name encodes to
  \<open>[{"documentId":"1","name":""}]\<close>, which decodes to the empty set, on every platform
  whose \<open>JSON.parse\<close> reads that text back.\<close>

theorem decode_encode_loses_empty_names:
  "list_all typed nameless
   \<and> JSON_stringify nameless = [91, 123, 34] @ ascii ''documentId'' @ [34, 58, 34] @ ascii ''1''
        @ [34, 44, 34] @ ascii ''name'' @ [34, 58, 34, 34, 125, 93]
   \<and> ref_parse (JSON_stringify nameless) = Some (JArr (map tag_obj nameless))
   \<and> parseTagValue sample_platform (JStr (JSON_stringify nameless)) = Inr []
   \<and> parseTagValue sample_platform (JStr (JSON_stringify nameless)) \<noteq> Inr nameless
   \<and> \<not> (\<exists>P. JSON_parse P (JSON_stringify nameless) = Some (JArr (map tag_obj nameless))
            \<and> parseTagValue P (JStr (JSON_stringify nameless)) = Inr nameless)"
proof -
  have t: "list_all typed nameless"
    by (simp add: nameless_def typed_def is_string_def)
  have s: "JSON_stringify nameless = [91, 123, 34] @ ascii ''documentId'' @ [34, 58, 34] @ ascii ''1''
        @ [34, 44, 34] @ ascii ''name'' @ [34, 58, 34, 34, 125, 93]"
    by (simp add: stringify_defs ascii_def)
  have p: "ref_parse (JSON_stringify nameless) = Some (JArr (map tag_obj nameless))"
    by (simp add: json_defs stringify_defs)
  have g: "parseTagValue P (JStr (JSON_stringify nameless)) = Inr []"
    if "JSON_parse P (JSON_stringify nameless) = Some (JArr (map tag_obj nameless))" for P
    using that by (simp add: parseTagValue_def JSON_stringify_def keeps_def prop_of_def
        tag_obj_def nameless_def ascii_def)
  have q: "parseTagValue sample_platform (JStr (JSON_stringify nameless)) = Inr []"
    using g [of sample_platform] p by (simp add: sample_platform_def)
  have n: "nameless \<noteq> []" by (simp add: nameless_def)
  show ?thesis
    using t s p q g n by auto
qed

theorem decode_encode_witness:
  "JSON_parse sample_platform (JSON_stringify [tag ''1'' ''Go'', tag [] ''Rust''])
     = Some (JArr (map tag_obj [tag ''1'' ''Go'', tag [] ''Rust'']))
   \<and> list_all typed [tag ''1'' ''Go'', tag [] ''Rust'']
   \<and> list_all canonical [tag ''1'' ''Go'', tag [] ''Rust'']
   \<and> list_all (\<lambda>t. name t \<noteq> JStr []) [tag ''1'' ''Go'', tag [] ''Rust'']
   \<and> parseTagValue sample_platform (JStr (JSON_stringify [tag ''1'' ''Go'', tag [] ''Rust'']))
       = Inr [tag ''1'' ''Go'', tag [] ''Rust'']"
proof -
  have p: "JSON_parse sample_platform (JSON_stringify [tag ''1'' ''Go'', tag [] ''Rust''])
     = Some (JArr (map tag_obj [tag ''1'' ''Go'', tag [] ''Rust'']))"
    by (simp add: sample_platform_def json_defs stringify_defs)
  have t: "list_all typed [tag ''1'' ''Go'', tag [] ''Rust'']"
    by (simp add: typed_def is_string_def tag_def)
  have c: "list_all canonical [tag ''1'' ''Go'', tag [] ''Rust'']"
    by (simp add: canonical_def tag_def ascii_def)
  have n: "list_all (\<lambda>t. name t \<noteq> JStr []) [tag ''1'' ''Go'', tag [] ''Rust'']"
    by (simp add: tag_def ascii_def)
  show ?thesis
    using p t c n decode_encode [of "[tag ''1'' ''Go'', tag [] ''Rust'']" sample_platform] by simp
qed

end
